theory Spec2Isabelle
  imports Main
begin

section \<open>Python values\<close>

text \<open>
  The client of \<^verbatim>\<open>objeto_imis_client.py\<close> handles the values that
  \<^verbatim>\<open>response.json()\<close> produces: \<^verbatim>\<open>None\<close>, booleans, integers, strings, lists and
  dictionaries with string keys. A parsed dictionary is an association list in insertion
  order with distinct keys. Strings are ASCII byte lists; numbers with a fraction are
  outside the development.
\<close>

datatype pyval =
    PyNone
  | PyBool bool
  | PyInt int
  | PyStr string
  | PyList "pyval list"
  | PyDict "(string \<times> pyval) list"

text \<open>The exceptions that the code raises or that the Python operations it uses raise.\<close>

datatype exn =
    ValueError string
  | Exception string
  | KeyError string
  | TypeError
  | AttributeError
  | JSONDecodeError string

text \<open>A dictionary built by the client itself (\<^verbatim>\<open>rec = {}\<close>): keys are whatever hashable
  value \<^verbatim>\<open>value["Name"]\<close> holds, in insertion order.\<close>

type_synonym pydict = "(pyval \<times> pyval) list"

text \<open>Truth value of an object, as \<^verbatim>\<open>if x:\<close>, \<^verbatim>\<open>not x\<close> and \<^verbatim>\<open>while x\<close> test it.\<close>

fun truthy :: "pyval \<Rightarrow> bool" where
  "truthy PyNone = False"
| "truthy (PyBool b) = b"
| "truthy (PyInt i) = (i \<noteq> 0)"
| "truthy (PyStr s) = (s \<noteq> [])"
| "truthy (PyList xs) = (xs \<noteq> [])"
| "truthy (PyDict kvs) = (kvs \<noteq> [])"

text \<open>\<^verbatim>\<open>x.get(k, d)\<close>: only dictionaries have the method.\<close>

fun py_get :: "pyval \<Rightarrow> string \<Rightarrow> pyval \<Rightarrow> exn + pyval" where
  "py_get (PyDict kvs) k d = Inr (case map_of kvs k of None \<Rightarrow> d | Some v \<Rightarrow> v)"
| "py_get _ k d = Inl AttributeError"

text \<open>\<^verbatim>\<open>x[k]\<close> with a string \<open>k\<close>: a missing key of a dictionary is a \<^verbatim>\<open>KeyError\<close>; every
  other kind of value rejects a string subscript with a \<^verbatim>\<open>TypeError\<close>.\<close>

fun py_getitem :: "pyval \<Rightarrow> string \<Rightarrow> exn + pyval" where
  "py_getitem (PyDict kvs) k = (case map_of kvs k of None \<Rightarrow> Inl (KeyError k) | Some v \<Rightarrow> Inr v)"
| "py_getitem _ k = Inl TypeError"

text \<open>\<^verbatim>\<open>for v in x\<close>: a list gives its elements, a dictionary its keys, a string its
  characters; the other values are not iterable.\<close>

fun py_iter :: "pyval \<Rightarrow> exn + pyval list" where
  "py_iter (PyList xs) = Inr xs"
| "py_iter (PyDict kvs) = Inr (map (\<lambda>kv. PyStr (fst kv)) kvs)"
| "py_iter (PyStr s) = Inr (map (\<lambda>c. PyStr [c]) s)"
| "py_iter _ = Inl TypeError"

text \<open>Dictionary keys: lists and dictionaries are unhashable; \<^verbatim>\<open>True\<close> and \<^verbatim>\<open>1\<close>
  (\<^verbatim>\<open>False\<close> and \<^verbatim>\<open>0\<close>) are the same key.\<close>

fun hashable :: "pyval \<Rightarrow> bool" where
  "hashable (PyList xs) = False"
| "hashable (PyDict kvs) = False"
| "hashable _ = True"

fun key_norm :: "pyval \<Rightarrow> pyval" where
  "key_norm (PyBool b) = PyInt (if b then 1 else 0)"
| "key_norm v = v"

definition key_eq :: "pyval \<Rightarrow> pyval \<Rightarrow> bool" where
  "key_eq a b = (key_norm a = key_norm b)"

fun dict_update :: "pydict \<Rightarrow> pyval \<Rightarrow> pyval \<Rightarrow> pydict" where
  "dict_update [] k v = [(k, v)]"
| "dict_update ((k', v') # kvs) k v =
     (if key_eq k' k then (k', v) # kvs else (k', v') # dict_update kvs k v)"

fun dict_lookup :: "pydict \<Rightarrow> pyval \<Rightarrow> pyval option" where
  "dict_lookup [] k = None"
| "dict_lookup ((k', v') # kvs) k = (if key_eq k' k then Some v' else dict_lookup kvs k)"

text \<open>\<^verbatim>\<open>rec[k] = v\<close>\<close>

definition py_setitem :: "pydict \<Rightarrow> pyval \<Rightarrow> pyval \<Rightarrow> exn + pydict" where
  "py_setitem rec k v = (if hashable k then Inr (dict_update rec k v) else Inl TypeError)"

subsection \<open>Formatting\<close>

text \<open>\<^verbatim>\<open>str\<close> of an integer, and \<^verbatim>\<open>str\<close> and \<^verbatim>\<open>repr\<close> of a value, as the f-strings of the
  client apply them.\<close>

definition digit_char :: "nat \<Rightarrow> char" where
  "digit_char d = char_of (48 + d)"

function str_nat :: "nat \<Rightarrow> string" where
  "str_nat n = (if n < 10 then [digit_char n] else str_nat (n div 10) @ [digit_char (n mod 10)])"
  by pat_completeness auto
termination
  by (relation "measure id") auto

declare str_nat.simps [simp del]

definition str_int :: "int \<Rightarrow> string" where
  "str_int i = (if i < 0 then CHR ''-'' # str_nat (nat (- i)) else str_nat (nat i))"

definition hex_char :: "nat \<Rightarrow> char" where
  "hex_char d = (if d < 10 then char_of (48 + d) else char_of (87 + d))"

definition repr_char :: "char \<Rightarrow> char \<Rightarrow> string" where
  "repr_char q c =
     (if c = q \<or> c = CHR 0x5C then [CHR 0x5C, c]
      else if c = CHR 0x09 then [CHR 0x5C, CHR ''t'']
      else if c = CHR 0x0A then [CHR 0x5C, CHR ''n'']
      else if c = CHR 0x0D then [CHR 0x5C, CHR ''r'']
      else if of_char c < (32::nat) \<or> of_char c = (127::nat)
        then [CHR 0x5C, CHR ''x'', hex_char (of_char c div 16), hex_char (of_char c mod 16)]
      else [c])"

definition repr_str :: "string \<Rightarrow> string" where
  "repr_str s =
     (let q = (if CHR 0x27 \<in> set s \<and> CHR 0x22 \<notin> set s then CHR 0x22 else CHR 0x27)
      in q # concat (map (repr_char q) s) @ [q])"

fun join :: "string \<Rightarrow> string list \<Rightarrow> string" where
  "join sep [] = []"
| "join sep [x] = x"
| "join sep (x # y # ys) = x @ sep @ join sep (y # ys)"

fun py_repr :: "pyval \<Rightarrow> string" where
  "py_repr PyNone = ''None''"
| "py_repr (PyBool b) = (if b then ''True'' else ''False'')"
| "py_repr (PyInt i) = str_int i"
| "py_repr (PyStr s) = repr_str s"
| "py_repr (PyList xs) = ''['' @ join '', '' (map py_repr xs) @ '']''"
| "py_repr (PyDict kvs) =
     ''{'' @ join '', '' (map (\<lambda>kv. repr_str (fst kv) @ '': '' @ py_repr (snd kv)) kvs) @ ''}''"

fun py_str :: "pyval \<Rightarrow> string" where
  "py_str (PyStr s) = s"
| "py_str v = py_repr v"

section \<open>Flattening\<close>

text \<open>The body of the \<^verbatim>\<open>for value in value_pairs\<close> loop of \<^verbatim>\<open>flatten_record\<close>, with
  \<^verbatim>\<open>rec\<close> as accumulator. In each branch the right-hand side is evaluated before the
  subscript \<^verbatim>\<open>value["Name"]\<close>, and the store comes last.\<close>

fun flatten_pairs :: "pyval list \<Rightarrow> pydict \<Rightarrow> exn + pydict" where
  "flatten_pairs [] rec = Inr rec"
| "flatten_pairs (value # rest) rec =
     (case py_get value ''Value'' PyNone of
        Inl e \<Rightarrow> Inl e
      | Inr v \<Rightarrow>
          (case py_getitem value ''Name'' of
             Inl e \<Rightarrow> Inl e
           | Inr name \<Rightarrow>
               (case py_setitem rec name
                       (case v of
                          PyDict kvs \<Rightarrow> (case map_of kvs ''$value'' of None \<Rightarrow> v | Some x \<Rightarrow> x)
                        | _ \<Rightarrow> v) of
                  Inl e \<Rightarrow> Inl e
                | Inr rec' \<Rightarrow> flatten_pairs rest rec')))"

definition flatten_record :: "pyval \<Rightarrow> exn + pydict" where
  "flatten_record row =
     (case py_getitem row ''Properties'' of
        Inl e \<Rightarrow> Inl e
      | Inr props \<Rightarrow>
          (case py_getitem props ''$values'' of
             Inl e \<Rightarrow> Inl e
           | Inr value_pairs \<Rightarrow>
               (case py_iter value_pairs of
                  Inl e \<Rightarrow> Inl e
                | Inr vps \<Rightarrow> flatten_pairs vps [])))"

text \<open>The list comprehension of \<^verbatim>\<open>simplify_data\<close>: rows are flattened in order and the
  first exception ends it.\<close>

fun flatten_rows :: "pyval list \<Rightarrow> exn + pydict list" where
  "flatten_rows [] = Inr []"
| "flatten_rows (item # rest) =
     (case flatten_record item of
        Inl e \<Rightarrow> Inl e
      | Inr r \<Rightarrow> (case flatten_rows rest of Inl e \<Rightarrow> Inl e | Inr rs \<Rightarrow> Inr (r # rs)))"

definition simplify_data :: "pyval \<Rightarrow> exn + pydict list" where
  "simplify_data data =
     (case py_get data ''Items'' (PyDict []) of
        Inl e \<Rightarrow> Inl e
      | Inr its \<Rightarrow>
          (case py_get its ''$values'' (PyList []) of
             Inl e \<Rightarrow> Inl e
           | Inr vals \<Rightarrow>
               (case py_iter vals of
                  Inl e \<Rightarrow> Inl e
                | Inr rows \<Rightarrow> flatten_rows rows)))"

section \<open>The world: HTTP transport and console\<close>

text \<open>
  \<^verbatim>\<open>requests.request\<close> and \<^verbatim>\<open>print\<close> are the effects of the client. The world records the
  calls made so far and the lines printed; \<^verbatim>\<open>log_error\<close> and \<^verbatim>\<open>log_info\<close> differ in the
  prefix they print, which is the constructor here. The transport answers the \<open>n\<close>-th call
  of a world (counted from 0) and may look at the request; a response sequence is a
  transport that ignores the request.
\<close>

record request =
  http_method :: string
  url :: string
  data :: "(string \<times> pyval) list option"
  headers :: "(string \<times> string) list option"

text \<open>A response that passed \<^verbatim>\<open>raise_for_status\<close>: only \<^verbatim>\<open>response.json()\<close> is read
  from it, which raises on a body that is not JSON.\<close>

datatype response = BadBody string | JsonBody pyval

text \<open>\<^verbatim>\<open>RequestException msg\<close>: the call or \<^verbatim>\<open>raise_for_status\<close> raised, with \<^verbatim>\<open>str(e) = msg\<close>.\<close>

datatype outcome = RequestException string | Returned response

type_synonym transport = "nat \<Rightarrow> request \<Rightarrow> outcome"

datatype log_line = Error string | Info string

record world =
  calls :: "request list"
  printed :: "log_line list"

definition log_error :: "string \<Rightarrow> world \<Rightarrow> world" where
  "log_error message w = w\<lparr>printed := printed w @ [Error message]\<rparr>"

definition log_info :: "string \<Rightarrow> world \<Rightarrow> world" where
  "log_info message w = w\<lparr>printed := printed w @ [Info message]\<rparr>"

fun response_json :: "response \<Rightarrow> exn + pyval" where
  "response_json (BadBody msg) = Inl (JSONDecodeError msg)"
| "response_json (JsonBody v) = Inr v"

definition make_request ::
  "transport \<Rightarrow> string \<Rightarrow> string \<Rightarrow> (string \<times> pyval) list option \<Rightarrow>
   (string \<times> string) list option \<Rightarrow> world \<Rightarrow> response option \<times> world" where
  "make_request env meth u d h w =
     (let req = \<lparr>http_method = meth, url = u, data = d, headers = h\<rparr>;
          w1 = w\<lparr>calls := calls w @ [req]\<rparr>
      in case env (length (calls w)) req of
           Returned response \<Rightarrow> (Some response, w1)
         | RequestException e \<Rightarrow> (None, log_error (''Request failed: '' @ e) w1))"

section \<open>Construction and authentication\<close>

record IMISClientConfig =
  BASE_URL :: pyval
  USERNAME :: pyval
  PWD :: pyval

record IMISClient =
  base_url :: pyval
  token :: string

text \<open>\<^verbatim>\<open>request_token\<close>: \<^verbatim>\<open>response.json()\<close> on the \<^verbatim>\<open>None\<close> that \<^verbatim>\<open>make_request\<close>
  returns after a failed call is an \<^verbatim>\<open>AttributeError\<close>.\<close>

definition request_token ::
  "transport \<Rightarrow> pyval \<Rightarrow> pyval \<Rightarrow> pyval \<Rightarrow> world \<Rightarrow> (exn + string) \<times> world" where
  "request_token env self_base_url username password w =
     (let d = [(''grant_type'', PyStr ''password''), (''username'', username),
               (''password'', password)];
          h = [(''Content-Type'', ''application/x-www-form-urlencoded'')];
          token_url = py_str self_base_url @ ''/token''
      in case make_request env ''POST'' token_url (Some d) (Some h) w of
           (None, w1) \<Rightarrow> (Inl AttributeError, w1)
         | (Some response, w1) \<Rightarrow>
             (case response_json response of
                Inl e \<Rightarrow> (Inl e, w1)
              | Inr body \<Rightarrow>
                  (case py_get body ''access_token'' PyNone of
                     Inl e \<Rightarrow> (Inl e, w1)
                   | Inr t \<Rightarrow> (Inr (''Bearer '' @ py_str t), w1))))"

definition authenticate ::
  "transport \<Rightarrow> pyval \<Rightarrow> pyval \<Rightarrow> pyval \<Rightarrow> world \<Rightarrow> (exn + string) \<times> world" where
  "authenticate env self_base_url username password w =
     (if \<not> truthy username \<or> \<not> truthy password
      then (Inl (ValueError ''Username and password are required for authentication.''), w)
      else case request_token env self_base_url username password w of
             (Inl e, w1) \<Rightarrow> (Inl e, w1)
           | (Inr tok, w1) \<Rightarrow>
               (if tok = [] then (Inl (Exception ''Failed to authenticate with the API''), w1)
                else (Inr tok, w1)))"

text \<open>\<^verbatim>\<open>IMISClient.__init__\<close>\<close>

definition IMISClient_init ::
  "transport \<Rightarrow> IMISClientConfig \<Rightarrow> world \<Rightarrow> (exn + IMISClient) \<times> world" where
  "IMISClient_init env config w =
     (if \<not> truthy (BASE_URL config)
      then (Inl (ValueError
        ''Base URL is required in the configuration (e.g. https://demo123.imiscloud.com)''), w)
      else if \<not> truthy (USERNAME config)
      then (Inl (ValueError ''Username is required in the configuration.''), w)
      else if \<not> truthy (PWD config)
      then (Inl (ValueError ''Password is required in the configuration.''), w)
      else case authenticate env (BASE_URL config) (USERNAME config) (PWD config) w of
             (Inl e, w1) \<Rightarrow> (Inl e, w1)
           | (Inr tok, w1) \<Rightarrow> (Inr \<lparr>base_url = BASE_URL config, token = tok\<rparr>, w1))"

section \<open>Paginated fetch\<close>

definition construct_path_request ::
  "IMISClient \<Rightarrow> string \<Rightarrow> int \<Rightarrow> int \<Rightarrow> pyval \<Rightarrow> string" where
  "construct_path_request self path page_size off last_updated =
     (let path_request =
            py_str (base_url self) @ path @ ''&limit='' @ str_int page_size
              @ ''&offset='' @ str_int off
      in if truthy last_updated then path_request @ ''&parameter='' @ py_str last_updated
         else path_request)"

text \<open>The dictionary that \<^verbatim>\<open>process_response\<close> returns.\<close>

record page_result =
  r_items :: "pydict list"
  r_has_next :: pyval
  r_count :: pyval

text \<open>The \<^verbatim>\<open>try\<close> block of \<^verbatim>\<open>process_response\<close>; the entries of the dictionary literal
  are evaluated in order.\<close>

definition decode_page :: "response \<Rightarrow> exn + page_result" where
  "decode_page response =
     (case response_json response of
        Inl e \<Rightarrow> Inl e
      | Inr d \<Rightarrow>
          (case simplify_data d of
             Inl e \<Rightarrow> Inl e
           | Inr its \<Rightarrow>
               (case py_get d ''HasNext'' (PyBool False) of
                  Inl e \<Rightarrow> Inl e
                | Inr hn \<Rightarrow>
                    (case py_get d ''TotalCount'' (PyInt 0) of
                       Inl e \<Rightarrow> Inl e
                     | Inr c \<Rightarrow> Inr \<lparr>r_items = its, r_has_next = hn, r_count = c\<rparr>))))"

text \<open>\<^verbatim>\<open>process_response\<close>: the handler catches \<^verbatim>\<open>json.JSONDecodeError\<close> and \<^verbatim>\<open>KeyError\<close>
  only (\<^verbatim>\<open>str\<close> of a \<^verbatim>\<open>KeyError\<close> is the \<^verbatim>\<open>repr\<close> of its key); any other exception
  leaves the function.\<close>

definition process_response :: "response \<Rightarrow> world \<Rightarrow> (exn + page_result option) \<times> world" where
  "process_response response w =
     (case decode_page response of
        Inr result \<Rightarrow> (Inr (Some result), w)
      | Inl (JSONDecodeError msg) \<Rightarrow>
          (Inr None, log_error (''Error processing response: '' @ msg) w)
      | Inl (KeyError k) \<Rightarrow>
          (Inr None, log_error (''Error processing response: '' @ repr_str k) w)
      | Inl e \<Rightarrow> (Inl e, w))"

text \<open>The local variables of \<^verbatim>\<open>fetch_iqa\<close> that the loop updates.\<close>

record loop_state =
  items :: "pydict list"
  has_next :: pyval
  offset :: int

definition loop_cond :: "int option \<Rightarrow> loop_state \<Rightarrow> bool" where
  "loop_cond limit st =
     (truthy (has_next st) \<and> (case limit of None \<Rightarrow> True | Some l \<Rightarrow> offset st < l))"

datatype step = Continue loop_state | Break | Raise exn

text \<open>One run of the body of the \<^verbatim>\<open>while\<close> loop. A response that \<^verbatim>\<open>make_request\<close> returns
  and a dictionary that \<^verbatim>\<open>process_response\<close> returns are true in \<^verbatim>\<open>if response:\<close> and
  \<^verbatim>\<open>if result:\<close>.\<close>

definition loop_body ::
  "transport \<Rightarrow> IMISClient \<Rightarrow> string \<Rightarrow> int \<Rightarrow> pyval \<Rightarrow> loop_state \<Rightarrow> world \<Rightarrow> step \<times> world" where
  "loop_body env self iqa_path page_size last_updated st w =
     (let path_request = construct_path_request self iqa_path page_size (offset st) last_updated
      in case make_request env ''GET'' path_request None
                (Some [(''Authorization'', token self)]) w of
           (None, w1) \<Rightarrow> (Break, w1)
         | (Some response, w1) \<Rightarrow>
             (case process_response response w1 of
                (Inl e, w2) \<Rightarrow> (Raise e, w2)
              | (Inr None, w2) \<Rightarrow> (Break, w2)
              | (Inr (Some result), w2) \<Rightarrow>
                  (let off = offset st + int (length (r_items result))
                   in (Continue \<lparr>items = items st @ r_items result,
                                 has_next = r_has_next result, offset = off\<rparr>,
                       log_info (''Retrieving: '' @ str_int off @ '' of ''
                                   @ py_str (r_count result)) w2))))"

text \<open>The \<^verbatim>\<open>while\<close> loop. It need not end, so the result is an option: \<open>None\<close> is a
  run that never returns.\<close>

partial_function (option) fetch_loop ::
  "transport \<Rightarrow> IMISClient \<Rightarrow> string \<Rightarrow> int option \<Rightarrow> int \<Rightarrow> pyval \<Rightarrow> loop_state \<Rightarrow> world
   \<Rightarrow> ((exn + pydict list) \<times> world) option" where
  "fetch_loop env self iqa_path limit page_size last_updated st w =
     (if loop_cond limit st
      then (case loop_body env self iqa_path page_size last_updated st w of
              (Continue st', w') \<Rightarrow>
                fetch_loop env self iqa_path limit page_size last_updated st' w'
            | (Break, w') \<Rightarrow> Some (Inr (items st), w')
            | (Raise e, w') \<Rightarrow> Some (Inl e, w'))
      else Some (Inr (items st), w))"

declare fetch_loop.simps [code]

definition fetch_iqa ::
  "transport \<Rightarrow> IMISClient \<Rightarrow> string \<Rightarrow> int option \<Rightarrow> int \<Rightarrow> pyval \<Rightarrow> world
   \<Rightarrow> ((exn + pydict list) \<times> world) option" where
  "fetch_iqa env self iqa_path limit page_size last_updated w =
     fetch_loop env self (''/api/IQA?QueryName='' @ iqa_path) limit page_size last_updated
       \<lparr>items = [], has_next = PyBool True, offset = 0\<rparr> w"

section \<open>The specification's flattening rule and example data\<close>

text \<open>The field name of a \<^verbatim>\<open>{Name, Value}\<close> pair, when it has one.\<close>

definition pair_name :: "pyval \<Rightarrow> string option" where
  "pair_name vp = (case py_getitem vp ''Name'' of Inr (PyStr n) \<Rightarrow> Some n | _ \<Rightarrow> None)"

text \<open>The specification's rule for one pair: if \<^verbatim>\<open>Value\<close> is a structured object, its
  \<^verbatim>\<open>$value\<close> member, or the whole object when \<^verbatim>\<open>$value\<close> is absent; otherwise \<^verbatim>\<open>Value\<close>
  as it is (a scalar or null).\<close>

definition spec_value :: "pyval \<Rightarrow> pyval" where
  "spec_value vp =
     (case py_get vp ''Value'' PyNone of
        Inr (PyDict kvs) \<Rightarrow> (case map_of kvs ''$value'' of Some x \<Rightarrow> x | None \<Rightarrow> PyDict kvs)
      | Inr v \<Rightarrow> v
      | Inl e \<Rightarrow> PyNone)"

text \<open>The specification's mapping from field name to value, built from all pairs of a row
  in their order.\<close>

definition spec_mapping :: "pyval list \<Rightarrow> (string \<rightharpoonup> pyval)" where
  "spec_mapping vps =
     foldl (\<lambda>m vp. case pair_name vp of Some n \<Rightarrow> m(n \<mapsto> spec_value vp) | None \<Rightarrow> m)
       Map.empty vps"

definition example_pairs :: "pyval list" where
  "example_pairs =
     [PyDict [(''Name'', PyStr ''A''), (''Value'', PyStr ''x'')],
      PyDict [(''Name'', PyStr ''B''), (''Value'', PyDict [(''$value'', PyInt 5)])]]"

definition example_props :: pyval where
  "example_props = PyDict [(''$values'', PyList example_pairs)]"

definition example_row :: pyval where
  "example_row = PyDict [(''Properties'', example_props)]"

definition example_config :: IMISClientConfig where
  "example_config =
     \<lparr>BASE_URL = PyStr ''https://demo123.imiscloud.com'', USERNAME = PyStr ''user'',
      PWD = PyStr ''secret''\<rparr>"

definition world0 :: world where
  "world0 = \<lparr>calls = [], printed = []\<rparr>"

section \<open>Naming the parts of a run of the loop\<close>

text \<open>The request that the loop body issues at a given offset: the arguments that
  \<^verbatim>\<open>fetch_iqa\<close> passes to \<^verbatim>\<open>make_request\<close>.\<close>

definition page_request :: "IMISClient \<Rightarrow> string \<Rightarrow> int \<Rightarrow> pyval \<Rightarrow> int \<Rightarrow> request" where
  "page_request self path page_size last_updated off =
     \<lparr>http_method = ''GET'',
      url = construct_path_request self path page_size off last_updated,
      data = None, headers = Some [(''Authorization'', token self)]\<rparr>"

text \<open>The endpoint that \<^verbatim>\<open>fetch_iqa\<close> builds from its \<^verbatim>\<open>iqa_path\<close> argument.\<close>

definition endpoint :: "string \<Rightarrow> string" where
  "endpoint iqa_path = ''/api/IQA?QueryName='' @ iqa_path"

text \<open>The progress message after a page, \<^verbatim>\<open>f"Retrieving: {offset} of {result['count']}"\<close>.\<close>

definition progress :: "int \<Rightarrow> pyval \<Rightarrow> log_line" where
  "progress off cnt = Info (''Retrieving: '' @ str_int off @ '' of '' @ py_str cnt)"

text \<open>The second conjunct of the loop condition.\<close>

definition under_limit :: "int option \<Rightarrow> int \<Rightarrow> bool" where
  "under_limit limit off = (case limit of None \<Rightarrow> True | Some l \<Rightarrow> off < l)"

text \<open>The exceptions that the handler of \<^verbatim>\<open>process_response\<close> catches.\<close>

fun caught :: "exn \<Rightarrow> bool" where
  "caught (JSONDecodeError msg) = True"
| "caught (KeyError k) = True"
| "caught _ = False"

text \<open>A call that ends the loop without an exception: the transport fails, or the body
  does not decode and the handler catches the exception.\<close>

definition call_fails :: "transport \<Rightarrow> nat \<Rightarrow> request \<Rightarrow> bool" where
  "call_fails env n req =
     (case env n req of
        RequestException e \<Rightarrow> True
      | Returned resp \<Rightarrow> (case decode_page resp of Inl e \<Rightarrow> caught e | Inr p \<Rightarrow> False))"

text \<open>The transport answers the calls \<open>n\<close>, \<open>n + 1\<close>, ... with responses that decode to
  the given pages, when each request carries the offset reached so far.\<close>

fun serves :: "transport \<Rightarrow> (int \<Rightarrow> request) \<Rightarrow> nat \<Rightarrow> int \<Rightarrow> page_result list \<Rightarrow> bool" where
  "serves env req n off [] = True"
| "serves env req n off (p # ps) =
     ((case env n (req off) of
         Returned resp \<Rightarrow> decode_page resp = Inr p
       | RequestException e \<Rightarrow> False)
      \<and> serves env req (Suc n) (off + int (length (r_items p))) ps)"

text \<open>The loop condition holds before each of the given pages is requested, and the
  limit still admits a request after the last of them.\<close>

fun continues :: "int option \<Rightarrow> int \<Rightarrow> page_result list \<Rightarrow> bool" where
  "continues limit off [] = under_limit limit off"
| "continues limit off (p # ps) =
     (under_limit limit off \<and> truthy (r_has_next p)
      \<and> continues limit (off + int (length (r_items p))) ps)"

definition example_client :: IMISClient where
  "example_client = \<lparr>base_url = PyStr ''https://demo123.imiscloud.com'', token = ''Bearer xyz''\<rparr>"

text \<open>A page body with the given \<^verbatim>\<open>HasNext\<close>, \<^verbatim>\<open>TotalCount\<close> and number of rows, each
  row the example row.\<close>

definition example_page :: "bool \<Rightarrow> int \<Rightarrow> nat \<Rightarrow> pyval" where
  "example_page hn cnt n =
     PyDict [(''HasNext'', PyBool hn), (''TotalCount'', PyInt cnt),
             (''Items'', PyDict [(''$values'', PyList (replicate n example_row))])]"

definition example_record :: pydict where
  "example_record = [(PyStr ''A'', PyStr ''x''), (PyStr ''B'', PyInt 5)]"

section \<open>The response body as the specification describes it\<close>

text \<open>The row collection of a page body: \<^verbatim>\<open>Items.$values\<close>, empty when either member is
  absent.\<close>

definition body_rows :: "pyval \<Rightarrow> pyval list option" where
  "body_rows d =
     (case d of
        PyDict kvs \<Rightarrow>
          (case map_of kvs ''Items'' of
             None \<Rightarrow> Some []
           | Some (PyDict ikvs) \<Rightarrow>
               (case map_of ikvs ''$values'' of
                  None \<Rightarrow> Some []
                | Some (PyList rows) \<Rightarrow> Some rows
                | Some _ \<Rightarrow> None)
           | Some _ \<Rightarrow> None)
      | _ \<Rightarrow> None)"

text \<open>A top-level member of a page body, with its default (\<^verbatim>\<open>HasNext\<close>: false,
  \<^verbatim>\<open>TotalCount\<close>: 0).\<close>

definition body_member :: "pyval \<Rightarrow> string \<Rightarrow> pyval \<Rightarrow> pyval" where
  "body_member d k dflt =
     (case d of
        PyDict kvs \<Rightarrow> (case map_of kvs k of None \<Rightarrow> dflt | Some v \<Rightarrow> v)
      | _ \<Rightarrow> dflt)"

text \<open>The \<^verbatim>\<open>{Name, Value}\<close> pairs of a row, \<^verbatim>\<open>Properties.$values\<close>, when the row has
  them as a list and every pair carries a string \<^verbatim>\<open>Name\<close>.\<close>

definition row_pairs :: "pyval \<Rightarrow> pyval list option" where
  "row_pairs row =
     (case py_getitem row ''Properties'' of
        Inr props \<Rightarrow>
          (case py_getitem props ''$values'' of
             Inr (PyList vps) \<Rightarrow>
               (if list_all (\<lambda>vp. pair_name vp \<noteq> None) vps then Some vps else None)
           | _ \<Rightarrow> None)
      | _ \<Rightarrow> None)"

text \<open>Example rows that differ in their values, their flattened records, and a page body
  with given rows.\<close>

definition example_row_of :: "string \<Rightarrow> int \<Rightarrow> pyval" where
  "example_row_of s i =
     PyDict [(''Properties'', PyDict [(''$values'', PyList
       [PyDict [(''Name'', PyStr ''A''), (''Value'', PyStr s)],
        PyDict [(''Name'', PyStr ''B''), (''Value'', PyDict [(''$value'', PyInt i)])]])])]"

definition example_record_of :: "string \<Rightarrow> int \<Rightarrow> pydict" where
  "example_record_of s i = [(PyStr ''A'', PyStr s), (PyStr ''B'', PyInt i)]"

definition example_body :: "bool \<Rightarrow> int \<Rightarrow> pyval list \<Rightarrow> pyval" where
  "example_body hn cnt rows =
     PyDict [(''HasNext'', PyBool hn), (''TotalCount'', PyInt cnt),
             (''Items'', PyDict [(''$values'', PyList rows)])]"

section \<open>Flattening: the code against the specification's rule\<close>

lemma key_eq_PyStr [simp]: "key_eq (PyStr a) (PyStr b) = (a = b)"
  by (simp add: key_eq_def)

lemma key_eq_sym: "key_eq a b = key_eq b a"
  by (auto simp: key_eq_def)

lemma key_eq_trans: "key_eq a b \<Longrightarrow> key_eq b c \<Longrightarrow> key_eq a c"
  by (simp add: key_eq_def)

lemma dict_lookup_update:
  "dict_lookup (dict_update r k v) k' = (if key_eq k k' then Some v else dict_lookup r k')"
proof (induction r)
  case Nil
  show ?case by simp
next
  case (Cons kv r)
  obtain k0 v0 where kv: "kv = (k0, v0)" by (cases kv)
  show ?case
    using Cons.IH key_eq_trans [of k0 k k'] key_eq_trans [of k k0 k'] key_eq_trans [of k0 k' k]
      key_eq_sym [of k0 k] key_eq_sym [of k k']
    by (auto simp: kv)
qed

lemma dict_update_keys: "fst ` set (dict_update r k v) \<subseteq> insert k (fst ` set r)"
  by (induction r) (force split: if_splits)+

lemma pair_nameD:
  "pair_name vp = Some n \<Longrightarrow> \<exists>kvs. vp = PyDict kvs \<and> map_of kvs ''Name'' = Some (PyStr n)"
  by (cases vp) (auto simp: pair_name_def split: option.splits pyval.splits)

lemma flatten_pairs_step:
  assumes "pair_name vp = Some n"
  shows "flatten_pairs (vp # rest) acc =
    flatten_pairs rest (dict_update acc (PyStr n) (spec_value vp))"
proof -
  from pair_nameD [OF assms] obtain kvs where vp: "vp = PyDict kvs"
    and nm: "map_of kvs ''Name'' = Some (PyStr n)" by blast
  show ?thesis
    by (simp add: vp nm spec_value_def py_setitem_def split: option.splits pyval.splits)
qed

lemma flatten_pairs_mapping:
  assumes "\<forall>vp\<in>set vps. pair_name vp \<noteq> None"
  shows "\<exists>rec. flatten_pairs vps acc = Inr rec \<and>
     fst ` set rec \<subseteq> fst ` set acc \<union> range PyStr \<and>
     (\<forall>n. dict_lookup rec (PyStr n) =
        foldl (\<lambda>m vp. case pair_name vp of Some n \<Rightarrow> m(n \<mapsto> spec_value vp) | None \<Rightarrow> m)
          (\<lambda>n. dict_lookup acc (PyStr n)) vps n)"
  using assms
proof (induction vps arbitrary: acc)
  case Nil
  show ?case by simp
next
  case (Cons vp vps)
  from Cons.prems obtain n where n: "pair_name vp = Some n" by auto
  have rest: "\<forall>vp\<in>set vps. pair_name vp \<noteq> None" using Cons.prems by simp
  let ?acc = "dict_update acc (PyStr n) (spec_value vp)"
  have upd: "(\<lambda>m. dict_lookup ?acc (PyStr m)) = (\<lambda>m. dict_lookup acc (PyStr m))(n \<mapsto> spec_value vp)"
    by (rule ext) (simp add: dict_lookup_update)
  have keys: "fst ` set ?acc \<union> range PyStr \<subseteq> fst ` set acc \<union> range PyStr"
    using dict_update_keys [of acc "PyStr n" "spec_value vp"] by auto
  from Cons.IH [OF rest, of ?acc] obtain rec where r: "flatten_pairs vps ?acc = Inr rec"
    and k: "fst ` set rec \<subseteq> fst ` set ?acc \<union> range PyStr"
    and l: "\<forall>m. dict_lookup rec (PyStr m) =
        foldl (\<lambda>m vp. case pair_name vp of Some n \<Rightarrow> m(n \<mapsto> spec_value vp) | None \<Rightarrow> m)
          (\<lambda>n. dict_lookup ?acc (PyStr n)) vps m"
    by blast
  have k': "fst ` set rec \<subseteq> fst ` set acc \<union> range PyStr" using k keys by blast
  have step: "flatten_pairs (vp # vps) acc = flatten_pairs vps ?acc"
    by (rule flatten_pairs_step [OF n])
  show ?case
    unfolding step using r l k' by (simp add: n upd)
qed

text \<open>
  Claim C5. For a row whose \<^verbatim>\<open>Properties.$values\<close> is a list of pairs that each carry a
  string \<^verbatim>\<open>Name\<close>, \<^verbatim>\<open>flatten_record\<close> returns a dictionary whose keys are field names and
  that maps every field name to what the specification's rule gives: the \<^verbatim>\<open>$value\<close> member
  of a structured \<^verbatim>\<open>Value\<close> (the whole object when it has none), and otherwise \<^verbatim>\<open>Value\<close> as
  it is. The row with the pairs \<^verbatim>\<open>{Name: "A", Value: "x"}\<close> and
  \<^verbatim>\<open>{Name: "B", Value: {"$value": 5}}\<close> flattens to \<^verbatim>\<open>{"A": "x", "B": 5}\<close>.
\<close>

theorem flatten_record_builds_mapping:
  "(py_getitem row ''Properties'' = Inr props \<longrightarrow>
    py_getitem props ''$values'' = Inr (PyList vps) \<longrightarrow>
    (\<forall>vp\<in>set vps. pair_name vp \<noteq> None) \<longrightarrow>
    (\<exists>rec. flatten_record row = Inr rec \<and>
       fst ` set rec \<subseteq> range PyStr \<and>
       (\<forall>n. dict_lookup rec (PyStr n) = spec_mapping vps n)))
   \<and> flatten_record example_row = Inr [(PyStr ''A'', PyStr ''x''), (PyStr ''B'', PyInt 5)]"
proof (intro conjI impI)
  assume p: "py_getitem row ''Properties'' = Inr props"
    and v: "py_getitem props ''$values'' = Inr (PyList vps)"
    and n: "\<forall>vp\<in>set vps. pair_name vp \<noteq> None"
  from flatten_pairs_mapping [OF n, of "[]"]
  show "\<exists>rec. flatten_record row = Inr rec \<and> fst ` set rec \<subseteq> range PyStr \<and>
       (\<forall>n. dict_lookup rec (PyStr n) = spec_mapping vps n)"
    by (simp add: flatten_record_def p v spec_mapping_def)
next
  show "flatten_record example_row = Inr [(PyStr ''A'', PyStr ''x''), (PyStr ''B'', PyInt 5)]"
    by (simp add: example_row_def example_props_def example_pairs_def flatten_record_def
        py_setitem_def)
qed

theorem flatten_record_builds_mapping_witness:
  "py_getitem example_row ''Properties'' = Inr example_props \<and>
   py_getitem example_props ''$values'' = Inr (PyList example_pairs) \<and>
   map pair_name example_pairs = [Some ''A'', Some ''B''] \<and>
   (\<exists>rec. flatten_record example_row = Inr rec
     \<and> dict_lookup rec (PyStr ''A'') = Some (PyStr ''x'')
     \<and> dict_lookup rec (PyStr ''B'') = Some (PyInt 5)
     \<and> dict_lookup rec (PyStr ''C'') = None)"
proof -
  have a: "py_getitem example_row ''Properties'' = Inr example_props"
    by (simp add: example_row_def)
  have b: "py_getitem example_props ''$values'' = Inr (PyList example_pairs)"
    by (simp add: example_props_def)
  have c: "\<forall>vp\<in>set example_pairs. pair_name vp \<noteq> None"
    by (simp add: example_pairs_def pair_name_def)
  have m: "spec_mapping example_pairs ''A'' = Some (PyStr ''x'')"
    "spec_mapping example_pairs ''B'' = Some (PyInt 5)"
    "spec_mapping example_pairs ''C'' = None"
    by (simp_all add: spec_mapping_def example_pairs_def pair_name_def spec_value_def)
  have d: "map pair_name example_pairs = [Some ''A'', Some ''B'']"
    by (simp add: example_pairs_def pair_name_def)
  from flatten_record_builds_mapping [THEN conjunct1, rule_format, OF a b] c
  show ?thesis
    using a b d m by auto
qed

section \<open>Construction\<close>

lemma response_json_exn: "response_json r = Inl e \<Longrightarrow> \<exists>m. e = JSONDecodeError m"
  by (cases r) auto

lemma py_get_exn: "py_get x k d = Inl e \<Longrightarrow> e = AttributeError"
  by (cases x) auto

text \<open>
  Claim C7. When the base URL, the username or the password of the configuration is false
  in a condition (\<^verbatim>\<open>None\<close> and the empty string are), construction raises a \<^verbatim>\<open>ValueError\<close>
  whose message names the first such field in that order, and the world is unchanged: no
  call was made.
\<close>

theorem init_rejects_missing_field:
  "\<not> truthy (BASE_URL config) \<or> \<not> truthy (USERNAME config) \<or> \<not> truthy (PWD config) \<Longrightarrow>
   IMISClient_init env config w =
     (Inl (ValueError
        (if \<not> truthy (BASE_URL config)
         then ''Base URL is required in the configuration (e.g. https://demo123.imiscloud.com)''
         else if \<not> truthy (USERNAME config) then ''Username is required in the configuration.''
         else ''Password is required in the configuration.'')), w)"
  by (auto simp: IMISClient_init_def)

theorem init_rejects_missing_field_witness:
  "IMISClient_init (\<lambda>n r. RequestException ''unreachable'')
      (example_config\<lparr>BASE_URL := PyNone\<rparr>) world0 =
     (Inl (ValueError
        ''Base URL is required in the configuration (e.g. https://demo123.imiscloud.com)''),
      world0)
   \<and> IMISClient_init (\<lambda>n r. RequestException ''unreachable'')
      (example_config\<lparr>USERNAME := PyStr []\<rparr>) world0 =
     (Inl (ValueError ''Username is required in the configuration.''), world0)
   \<and> IMISClient_init (\<lambda>n r. RequestException ''unreachable'')
      (example_config\<lparr>PWD := PyNone\<rparr>) world0 =
     (Inl (ValueError ''Password is required in the configuration.''), world0)"
  using init_rejects_missing_field [of "example_config\<lparr>BASE_URL := PyNone\<rparr>"
      "\<lambda>n r. RequestException ''unreachable''" world0]
    init_rejects_missing_field [of "example_config\<lparr>USERNAME := PyStr []\<rparr>"
      "\<lambda>n r. RequestException ''unreachable''" world0]
    init_rejects_missing_field [of "example_config\<lparr>PWD := PyNone\<rparr>"
      "\<lambda>n r. RequestException ''unreachable''" world0]
  by (simp add: example_config_def)

text \<open>
  Claim C8. With a complete configuration and a token response whose body is a JSON object
  with the string \<open>t\<close> under \<^verbatim>\<open>access_token\<close>, construction succeeds and the stored token is
  \<^verbatim>\<open>"Bearer "\<close> followed by \<open>t\<close>; for the body \<^verbatim>\<open>{"access_token": "xyz"}\<close> it is
  \<^verbatim>\<open>"Bearer xyz"\<close>.
\<close>

theorem token_is_bearer_access_token:
  assumes "truthy (BASE_URL config)" and "truthy (USERNAME config)" and "truthy (PWD config)"
    and "\<forall>r. env (length (calls w)) r = Returned (JsonBody (PyDict kvs))"
    and "map_of kvs ''access_token'' = Some (PyStr t)"
  shows "\<exists>w'. IMISClient_init env config w =
    (Inr \<lparr>base_url = BASE_URL config, token = ''Bearer '' @ t\<rparr>, w')"
  using assms
  by (simp add: IMISClient_init_def authenticate_def request_token_def make_request_def)

theorem token_is_bearer_access_token_witness:
  "\<exists>w'. IMISClient_init (\<lambda>n r. Returned (JsonBody (PyDict [(''access_token'', PyStr ''xyz'')])))
      example_config world0 =
    (Inr \<lparr>base_url = PyStr ''https://demo123.imiscloud.com'', token = ''Bearer xyz''\<rparr>, w')"
  using token_is_bearer_access_token [of example_config
      "\<lambda>n r. Returned (JsonBody (PyDict [(''access_token'', PyStr ''xyz'')]))" world0
      "[(''access_token'', PyStr ''xyz'')]" "''xyz''"]
  by (simp add: example_config_def)

lemma authenticate_guard_unreachable:
  "fst (authenticate env b u p w) \<noteq> Inl (Exception ''Failed to authenticate with the API'')"
  by (auto simp: authenticate_def request_token_def make_request_def Let_def
      split: sum.splits outcome.splits dest: response_json_exn py_get_exn)

text \<open>
  Claim C1, evaluated on the code. When the call to the token endpoint fails,
  \<^verbatim>\<open>request_token\<close> reads \<^verbatim>\<open>.json()\<close> of \<^verbatim>\<open>None\<close> and construction ends in an
  \<^verbatim>\<open>AttributeError\<close>; when the token response has no \<^verbatim>\<open>access_token\<close>, construction
  succeeds with the token \<^verbatim>\<open>"Bearer None"\<close>. (The string that \<^verbatim>\<open>request_token\<close> returns
  is never empty, so \<^verbatim>\<open>authenticate\<close> never raises its
  \<^verbatim>\<open>"Failed to authenticate with the API"\<close>: lemma \<open>authenticate_guard_unreachable\<close>.)
\<close>

theorem failed_authentication_not_reported:
  "fst (IMISClient_init (\<lambda>n r. RequestException ''401 Client Error'') example_config world0)
     = Inl AttributeError
   \<and> fst (IMISClient_init (\<lambda>n r. Returned (JsonBody (PyDict [(''error'', PyStr ''invalid_grant'')])))
        example_config world0)
     = Inr \<lparr>base_url = PyStr ''https://demo123.imiscloud.com'', token = ''Bearer None''\<rparr>"
  by (simp add: IMISClient_init_def authenticate_def request_token_def make_request_def
      example_config_def world0_def)

section \<open>One run of the loop body, by the answer of the transport\<close>

lemma loop_cond_iff: "loop_cond limit st = (truthy (has_next st) \<and> under_limit limit (offset st))"
  by (simp add: loop_cond_def under_limit_def)

lemma process_response_page:
  "decode_page resp = Inr page \<Longrightarrow> process_response resp w = (Inr (Some page), w)"
  by (simp add: process_response_def)

lemma process_response_caught:
  "decode_page resp = Inl e \<Longrightarrow> caught e \<Longrightarrow> \<exists>msg. process_response resp w = (Inr None, log_error msg w)"
  by (cases e) (simp_all add: process_response_def, blast+)

lemma process_response_raise:
  "decode_page resp = Inl e \<Longrightarrow> \<not> caught e \<Longrightarrow> process_response resp w = (Inl e, w)"
  by (cases e) (simp_all add: process_response_def)

lemma loop_body_page:
  assumes "env (length (calls w)) (page_request self path ps lu (offset st)) = Returned resp"
    and "decode_page resp = Inr page"
  shows "loop_body env self path ps lu st w =
    (Continue \<lparr>items = items st @ r_items page, has_next = r_has_next page,
               offset = offset st + int (length (r_items page))\<rparr>,
     \<lparr>calls = calls w @ [page_request self path ps lu (offset st)],
      printed = printed w @ [progress (offset st + int (length (r_items page))) (r_count page)]\<rparr>)"
  using assms
  by (simp add: loop_body_def make_request_def page_request_def process_response_page
      log_info_def progress_def Let_def)

lemma loop_body_failed:
  assumes "env (length (calls w)) (page_request self path ps lu (offset st)) = RequestException e"
  shows "loop_body env self path ps lu st w =
    (Break, \<lparr>calls = calls w @ [page_request self path ps lu (offset st)],
             printed = printed w @ [Error (''Request failed: '' @ e)]\<rparr>)"
  using assms
  by (simp add: loop_body_def make_request_def page_request_def log_error_def Let_def)

lemma loop_body_caught:
  assumes "env (length (calls w)) (page_request self path ps lu (offset st)) = Returned resp"
    and "decode_page resp = Inl e" and "caught e"
  shows "\<exists>msg. loop_body env self path ps lu st w =
    (Break, \<lparr>calls = calls w @ [page_request self path ps lu (offset st)],
             printed = printed w @ [Error msg]\<rparr>)"
proof -
  from process_response_caught [OF assms(2,3)]
  obtain msg where "process_response resp (w\<lparr>calls := calls w @ [page_request self path ps lu (offset st)]\<rparr>)
     = (Inr None, log_error msg (w\<lparr>calls := calls w @ [page_request self path ps lu (offset st)]\<rparr>))"
    by blast
  then show ?thesis
    using assms(1)
    by (intro exI [of _ msg])
      (simp add: loop_body_def make_request_def page_request_def log_error_def Let_def)
qed

lemma loop_body_raise:
  assumes "env (length (calls w)) (page_request self path ps lu (offset st)) = Returned resp"
    and "decode_page resp = Inl e" and "\<not> caught e"
  shows "loop_body env self path ps lu st w =
    (Raise e, \<lparr>calls = calls w @ [page_request self path ps lu (offset st)],
               printed = printed w\<rparr>)"
  using assms
  by (simp add: loop_body_def make_request_def page_request_def process_response_raise Let_def)

lemma fetch_loop_stop:
  "\<not> loop_cond limit st \<Longrightarrow>
   fetch_loop env self path limit ps lu st w = Some (Inr (items st), w)"
  by (subst fetch_loop.simps) simp

lemma fetch_loop_continue:
  "loop_cond limit st \<Longrightarrow> loop_body env self path ps lu st w = (Continue st', w') \<Longrightarrow>
   fetch_loop env self path limit ps lu st w = fetch_loop env self path limit ps lu st' w'"
  by (subst fetch_loop.simps) simp

lemma fetch_loop_break:
  "loop_cond limit st \<Longrightarrow> loop_body env self path ps lu st w = (Break, w') \<Longrightarrow>
   fetch_loop env self path limit ps lu st w = Some (Inr (items st), w')"
  by (subst fetch_loop.simps) simp

lemma fetch_loop_raise:
  "loop_cond limit st \<Longrightarrow> loop_body env self path ps lu st w = (Raise e, w') \<Longrightarrow>
   fetch_loop env self path limit ps lu st w = Some (Inl e, w')"
  by (subst fetch_loop.simps) simp

lemma decode_page_fields:
  assumes "decode_page resp = Inr page"
  shows "\<exists>kvs. resp = JsonBody (PyDict kvs) \<and> simplify_data (PyDict kvs) = Inr (r_items page)
     \<and> r_has_next page = (case map_of kvs ''HasNext'' of None \<Rightarrow> PyBool False | Some v \<Rightarrow> v)
     \<and> r_count page = (case map_of kvs ''TotalCount'' of None \<Rightarrow> PyInt 0 | Some v \<Rightarrow> v)"
proof (cases resp)
  case (BadBody m)
  with assms show ?thesis by (simp add: decode_page_def)
next
  case (JsonBody d)
  show ?thesis
  proof (cases d)
    case (PyDict kvs)
    with assms JsonBody show ?thesis
      by (auto simp: decode_page_def split: sum.splits)
  qed (use assms JsonBody in \<open>auto simp: decode_page_def simplify_data_def split: sum.splits\<close>)
qed

section \<open>The pagination loop, step by step\<close>

lemma str_int_digits [simp]: "str_int 0 = ''0''" "str_int 1 = ''1''" "str_int 2 = ''2''"
  "str_int 3 = ''3''" "str_int 4 = ''4''"
  by code_simp+

lemma flatten_example_row: "flatten_record example_row = Inr example_record"
  by (simp add: example_row_def example_props_def example_pairs_def flatten_record_def
      py_setitem_def example_record_def)

lemma flatten_rows_replicate:
  "flatten_rows (replicate n example_row) = Inr (replicate n example_record)"
  by (induction n) (simp_all add: flatten_example_row)

lemma decode_example_page:
  "decode_page (JsonBody (example_page hn cnt n)) =
     Inr \<lparr>r_items = replicate n example_record, r_has_next = PyBool hn, r_count = PyInt cnt\<rparr>"
  by (simp add: decode_page_def example_page_def simplify_data_def flatten_rows_replicate)

text \<open>
  Claim C3. \<^verbatim>\<open>fetch_iqa\<close> enters its loop with no items, a true has-more flag and offset
  0. The loop returns at once, with no further call, when the flag is false or the limit is
  set and the offset has reached it. Otherwise a page that is fetched and decoded extends
  the items, adds the number of its records to the offset (whatever the page size), makes
  the page's \<^verbatim>\<open>HasNext\<close> the new flag, and prints
  \<^verbatim>\<open>"Retrieving: {offset} of {total_count}"\<close> with the new offset.
\<close>

theorem fetch_iqa_pagination_state:
  "fetch_iqa env self iqa_path limit ps lu w =
     fetch_loop env self (endpoint iqa_path) limit ps lu
       \<lparr>items = [], has_next = PyBool True, offset = 0\<rparr> w
   \<and> (\<not> (truthy (has_next st) \<and> under_limit limit (offset st)) \<longrightarrow>
        fetch_loop env self path limit ps lu st w = Some (Inr (items st), w))
   \<and> (truthy (has_next st) \<and> under_limit limit (offset st) \<longrightarrow>
      env (length (calls w)) (page_request self path ps lu (offset st)) = Returned resp \<longrightarrow>
      decode_page resp = Inr page \<longrightarrow>
        fetch_loop env self path limit ps lu st w =
        fetch_loop env self path limit ps lu
          \<lparr>items = items st @ r_items page, has_next = r_has_next page,
           offset = offset st + int (length (r_items page))\<rparr>
          \<lparr>calls = calls w @ [page_request self path ps lu (offset st)],
           printed = printed w @
             [Info (''Retrieving: '' @ str_int (offset st + int (length (r_items page)))
                    @ '' of '' @ py_str (r_count page))]\<rparr>)
   \<and> (decode_page (JsonBody (PyDict kvs)) = Inr page' \<longrightarrow>
        r_has_next page' = (case map_of kvs ''HasNext'' of None \<Rightarrow> PyBool False | Some v \<Rightarrow> v))"
proof (intro conjI impI)
  show "fetch_iqa env self iqa_path limit ps lu w =
     fetch_loop env self (endpoint iqa_path) limit ps lu
       \<lparr>items = [], has_next = PyBool True, offset = 0\<rparr> w"
    by (simp add: fetch_iqa_def endpoint_def)
next
  assume "\<not> (truthy (has_next st) \<and> under_limit limit (offset st))"
  then have "\<not> loop_cond limit st" by (simp add: loop_cond_iff)
  then show "fetch_loop env self path limit ps lu st w = Some (Inr (items st), w)"
    by (rule fetch_loop_stop)
next
  assume c: "truthy (has_next st) \<and> under_limit limit (offset st)"
    and r: "env (length (calls w)) (page_request self path ps lu (offset st)) = Returned resp"
    and d: "decode_page resp = Inr page"
  from c have "loop_cond limit st" by (simp add: loop_cond_iff)
  from fetch_loop_continue [OF this loop_body_page [where env = env and w = w and st = st, OF r d]]
  show "fetch_loop env self path limit ps lu st w =
        fetch_loop env self path limit ps lu
          \<lparr>items = items st @ r_items page, has_next = r_has_next page,
           offset = offset st + int (length (r_items page))\<rparr>
          \<lparr>calls = calls w @ [page_request self path ps lu (offset st)],
           printed = printed w @
             [Info (''Retrieving: '' @ str_int (offset st + int (length (r_items page)))
                    @ '' of '' @ py_str (r_count page))]\<rparr>"
    by (simp add: progress_def)
next
  assume "decode_page (JsonBody (PyDict kvs)) = Inr page'"
  from decode_page_fields [OF this]
  show "r_has_next page' = (case map_of kvs ''HasNext'' of None \<Rightarrow> PyBool False | Some v \<Rightarrow> v)"
    by simp
qed

theorem fetch_iqa_pagination_state_witness:
  "fetch_loop (\<lambda>n r. Returned (JsonBody (example_page False 3 2))) example_client
      (endpoint ''$/Samples'') (Some 5) 200 PyNone
      \<lparr>items = [example_record], has_next = PyBool True, offset = 1\<rparr> world0
   = Some (Inr [example_record, example_record, example_record],
       \<lparr>calls = [page_request example_client (endpoint ''$/Samples'') 200 PyNone 1],
        printed = [Info ''Retrieving: 3 of 3'']\<rparr>)
   \<and> fetch_loop (\<lambda>n r. Returned (JsonBody (example_page False 3 2))) example_client
      (endpoint ''$/Samples'') (Some 1) 200 PyNone
      \<lparr>items = [example_record], has_next = PyBool True, offset = 1\<rparr> world0
   = Some (Inr [example_record], world0)"
proof -
  let ?env = "\<lambda>(n::nat) (r::request). Returned (JsonBody (example_page False 3 2))"
  let ?st = "\<lparr>items = [example_record], has_next = PyBool True, offset = 1\<rparr>"
  let ?page = "\<lparr>r_items = replicate 2 example_record, r_has_next = PyBool False,
     r_count = PyInt 3\<rparr>"
  let ?w = "\<lparr>calls = [page_request example_client (endpoint ''$/Samples'') 200 PyNone 1],
        printed = [Info ''Retrieving: 3 of 3'']\<rparr>"
  note inst = fetch_iqa_pagination_state [where env = ?env and self = example_client
      and ps = 200 and lu = PyNone and path = "endpoint ''$/Samples''" and resp = "JsonBody (example_page False 3 2)"]
  have step: "fetch_loop ?env example_client (endpoint ''$/Samples'') (Some 5) 200 PyNone ?st world0
    = fetch_loop ?env example_client (endpoint ''$/Samples'') (Some 5) 200 PyNone
        \<lparr>items = [example_record, example_record, example_record], has_next = PyBool False,
         offset = 3\<rparr> ?w"
    using inst [where limit = "Some 5" and st = ?st and w = world0 and page = ?page,
        THEN conjunct2, THEN conjunct2, THEN conjunct1]
    by (simp add: under_limit_def decode_example_page world0_def numeral_2_eq_2)
  have stop: "fetch_loop ?env example_client (endpoint ''$/Samples'') (Some 5) 200 PyNone
        \<lparr>items = [example_record, example_record, example_record], has_next = PyBool False,
         offset = 3\<rparr> ?w
    = Some (Inr [example_record, example_record, example_record], ?w)"
    using inst [where limit = "Some 5" and w = ?w
        and st = "\<lparr>items = [example_record, example_record, example_record],
          has_next = PyBool False, offset = 3\<rparr>",
        THEN conjunct2, THEN conjunct1]
    by simp
  have lim: "fetch_loop ?env example_client (endpoint ''$/Samples'') (Some 1) 200 PyNone ?st world0
    = Some (Inr [example_record], world0)"
    using inst [where limit = "Some 1" and st = ?st and w = world0,
        THEN conjunct2, THEN conjunct1]
    by (simp add: under_limit_def)
  show ?thesis
    using step stop lim by simp
qed

text \<open>One page and two pages, described by what the responses decode to.\<close>

lemma fetch_iqa_decoded_pages:
  "(under_limit limit 0 \<longrightarrow>
    env (length (calls w)) (page_request self (endpoint iqa_path) ps lu 0) = Returned resp \<longrightarrow>
    decode_page resp = Inr page \<longrightarrow> \<not> truthy (r_has_next page) \<longrightarrow>
    fetch_iqa env self iqa_path limit ps lu w =
      Some (Inr (r_items page),
            \<lparr>calls = calls w @ [page_request self (endpoint iqa_path) ps lu 0],
             printed = printed w @
               [Info (''Retrieving: '' @ str_int (int (length (r_items page))) @ '' of ''
                      @ py_str (r_count page))]\<rparr>))
   \<and> (under_limit limit 2 \<longrightarrow>
    env (length (calls w)) (page_request self (endpoint iqa_path) ps lu 0) = Returned resp_a \<longrightarrow>
    env (Suc (length (calls w))) (page_request self (endpoint iqa_path) ps lu 2)
      = Returned resp_b \<longrightarrow>
    decode_page resp_a = Inr page_a \<longrightarrow> truthy (r_has_next page_a) \<longrightarrow>
    length (r_items page_a) = 2 \<longrightarrow>
    decode_page resp_b = Inr page_b \<longrightarrow> \<not> truthy (r_has_next page_b) \<longrightarrow>
    length (r_items page_b) = 1 \<longrightarrow>
    fetch_iqa env self iqa_path limit ps lu w =
      Some (Inr (r_items page_a @ r_items page_b),
            \<lparr>calls = calls w @ [page_request self (endpoint iqa_path) ps lu 0,
                                 page_request self (endpoint iqa_path) ps lu 2],
             printed = printed w @
               [Info (''Retrieving: 2 of '' @ py_str (r_count page_a)),
                Info (''Retrieving: 3 of '' @ py_str (r_count page_b))]\<rparr>))"
proof (intro conjI impI)
  let ?st0 = "\<lparr>items = [], has_next = PyBool True, offset = 0\<rparr>"
  have init: "fetch_iqa env self iqa_path limit ps lu w =
    fetch_loop env self (endpoint iqa_path) limit ps lu ?st0 w"
    by (simp add: fetch_iqa_def endpoint_def)
  {
    assume l: "under_limit limit 0"
      and r: "env (length (calls w)) (page_request self (endpoint iqa_path) ps lu 0) = Returned resp"
      and d: "decode_page resp = Inr page" and h: "\<not> truthy (r_has_next page)"
    have c0: "loop_cond limit ?st0" using l by (simp add: loop_cond_iff)
    have r0: "env (length (calls w)) (page_request self (endpoint iqa_path) ps lu (offset ?st0))
      = Returned resp" using r by simp
    let ?st1 = "\<lparr>items = items ?st0 @ r_items page, has_next = r_has_next page,
               offset = offset ?st0 + int (length (r_items page))\<rparr>"
    have c1: "\<not> loop_cond limit ?st1" using h by (simp add: loop_cond_iff)
    show "fetch_iqa env self iqa_path limit ps lu w =
      Some (Inr (r_items page),
            \<lparr>calls = calls w @ [page_request self (endpoint iqa_path) ps lu 0],
             printed = printed w @
               [Info (''Retrieving: '' @ str_int (int (length (r_items page))) @ '' of ''
                      @ py_str (r_count page))]\<rparr>)"
      unfolding init fetch_loop_continue [OF c0 loop_body_page [where env = env and w = w and st = ?st0, OF r0 d]]
        fetch_loop_stop [OF c1]
      by (simp add: progress_def)
  }
  {
    assume l: "under_limit limit 2"
      and r1: "env (length (calls w)) (page_request self (endpoint iqa_path) ps lu 0)
        = Returned resp_a"
      and r2: "env (Suc (length (calls w))) (page_request self (endpoint iqa_path) ps lu 2)
        = Returned resp_b"
      and d1: "decode_page resp_a = Inr page_a" and h1: "truthy (r_has_next page_a)"
      and n1: "length (r_items page_a) = 2"
      and d2: "decode_page resp_b = Inr page_b" and h2: "\<not> truthy (r_has_next page_b)"
      and n2: "length (r_items page_b) = 1"
    have c0: "loop_cond limit ?st0" using l
      by (auto simp: loop_cond_iff under_limit_def split: option.splits)
    have r0: "env (length (calls w)) (page_request self (endpoint iqa_path) ps lu (offset ?st0))
      = Returned resp_a" using r1 by simp
    let ?st1 = "\<lparr>items = items ?st0 @ r_items page_a, has_next = r_has_next page_a,
               offset = offset ?st0 + int (length (r_items page_a))\<rparr>"
    let ?w1 = "\<lparr>calls = calls w @ [page_request self (endpoint iqa_path) ps lu (offset ?st0)],
      printed = printed w @ [progress (offset ?st0 + int (length (r_items page_a))) (r_count page_a)]\<rparr>"
    have c1: "loop_cond limit ?st1" using l h1 n1 by (simp add: loop_cond_iff)
    have r1': "env (length (calls ?w1)) (page_request self (endpoint iqa_path) ps lu (offset ?st1))
      = Returned resp_b" using r2 n1 by simp
    let ?st2 = "\<lparr>items = items ?st1 @ r_items page_b, has_next = r_has_next page_b,
               offset = offset ?st1 + int (length (r_items page_b))\<rparr>"
    have c2: "\<not> loop_cond limit ?st2" using h2 by (simp add: loop_cond_iff)
    show "fetch_iqa env self iqa_path limit ps lu w =
      Some (Inr (r_items page_a @ r_items page_b),
            \<lparr>calls = calls w @ [page_request self (endpoint iqa_path) ps lu 0,
                                 page_request self (endpoint iqa_path) ps lu 2],
             printed = printed w @
               [Info (''Retrieving: 2 of '' @ py_str (r_count page_a)),
                Info (''Retrieving: 3 of '' @ py_str (r_count page_b))]\<rparr>)"
      unfolding init fetch_loop_continue [OF c0 loop_body_page [where env = env and w = w and st = ?st0, OF r0 d1]]
        fetch_loop_continue [OF c1 loop_body_page [where env = env and w = ?w1 and st = ?st1, OF r1' d2]]
        fetch_loop_stop [OF c2]
      by (simp add: progress_def n1 n2)
  }
qed

lemma flatten_rows_all2:
  "list_all2 (\<lambda>row rec. flatten_record row = Inr rec) rows recs \<Longrightarrow>
   flatten_rows rows = Inr recs"
  by (induction rule: list_all2_induct) simp_all

lemma decode_page_body:
  assumes "body_rows d = Some rows"
    and "list_all2 (\<lambda>row rec. flatten_record row = Inr rec) rows recs"
  shows "decode_page (JsonBody d) =
    Inr \<lparr>r_items = recs, r_has_next = body_member d ''HasNext'' (PyBool False),
         r_count = body_member d ''TotalCount'' (PyInt 0)\<rparr>"
proof -
  from assms(1) obtain kvs where d: "d = PyDict kvs"
    by (cases d) (simp_all add: body_rows_def)
  have "simplify_data d = Inr recs"
  proof (cases "map_of kvs ''Items''")
    case None
    with assms show ?thesis
      by (simp add: d body_rows_def simplify_data_def)
  next
    case (Some its)
    with assms(1) obtain ikvs where its: "its = PyDict ikvs"
      by (cases its) (simp_all add: d body_rows_def)
    show ?thesis
    proof (cases "map_of ikvs ''$values''")
      case None
      with assms Some its show ?thesis
        by (simp add: d body_rows_def simplify_data_def)
    next
      case v: (Some vals)
      with assms(1) Some its have "vals = PyList rows"
        by (cases vals) (simp_all add: d body_rows_def)
      with assms(2) Some its v show ?thesis
        by (simp add: d simplify_data_def flatten_rows_all2)
    qed
  qed
  then show ?thesis
    by (simp add: decode_page_def d body_member_def)
qed

lemma row_pairs_flatten:
  assumes "row_pairs row = Some vps"
  shows "\<exists>rec. flatten_record row = Inr rec \<and> fst ` set rec \<subseteq> range PyStr \<and>
    (\<forall>n. dict_lookup rec (PyStr n) = spec_mapping vps n)"
proof -
  from assms obtain props where p: "py_getitem row ''Properties'' = Inr props"
    by (auto simp: row_pairs_def split: sum.splits)
  from assms p have v: "py_getitem props ''$values'' = Inr (PyList vps)"
    and n: "\<forall>vp\<in>set vps. pair_name vp \<noteq> None"
    by (auto simp: row_pairs_def list_all_iff split: sum.splits pyval.splits if_splits)
  from flatten_pairs_mapping [OF n, of "[]"]
  show ?thesis
    by (simp add: flatten_record_def p v spec_mapping_def)
qed

lemma flatten_example_row_of:
  "flatten_record (example_row_of s i) = Inr (example_record_of s i)"
  by (simp add: example_row_of_def example_record_of_def flatten_record_def py_setitem_def)

lemma example_body_simps [simp]:
  "body_rows (example_body hn cnt rows) = Some rows"
  "body_member (example_body hn cnt rows) ''HasNext'' dflt = PyBool hn"
  "body_member (example_body hn cnt rows) ''TotalCount'' dflt = PyInt cnt"
  by (simp_all add: example_body_def body_rows_def body_member_def)

text \<open>
  Claim C4. When the limit admits the first request and the first response is a page whose
  \<^verbatim>\<open>HasNext\<close> is false, \<^verbatim>\<open>fetch_iqa\<close> makes exactly that one call and returns, row by row
  in the order of \<^verbatim>\<open>Items.$values\<close>, exactly the flattened record of each row of that
  page. When the first page has a true \<^verbatim>\<open>HasNext\<close> and the two rows \<open>row_a\<close>, \<open>row_b\<close>, the
  limit admits a second request, and the second page has a false \<^verbatim>\<open>HasNext\<close> and the one
  row \<open>row_c\<close>, \<^verbatim>\<open>fetch_iqa\<close> makes two calls (at offsets 0 and 2), returns the flattened
  records of \<open>row_a\<close>, \<open>row_b\<close>, \<open>row_c\<close> in this order, and prints
  \<^verbatim>\<open>"Retrieving: 2 of <count>"\<close> and then \<^verbatim>\<open>"Retrieving: 3 of <count>"\<close>, each with the
  \<^verbatim>\<open>TotalCount\<close> of its page. The flattened record of a row of named pairs is the
  specification's mapping of those pairs.
\<close>

theorem fetch_iqa_one_and_two_pages:
  "(under_limit limit 0 \<longrightarrow>
    env (length (calls w)) (page_request self (endpoint iqa_path) ps lu 0)
      = Returned (JsonBody d) \<longrightarrow>
    body_rows d = Some rows \<longrightarrow>
    list_all2 (\<lambda>row rec. flatten_record row = Inr rec) rows recs \<longrightarrow>
    \<not> truthy (body_member d ''HasNext'' (PyBool False)) \<longrightarrow>
    fetch_iqa env self iqa_path limit ps lu w =
      Some (Inr recs,
            \<lparr>calls = calls w @ [page_request self (endpoint iqa_path) ps lu 0],
             printed = printed w @
               [Info (''Retrieving: '' @ str_int (int (length rows)) @ '' of ''
                      @ py_str (body_member d ''TotalCount'' (PyInt 0)))]\<rparr>))
   \<and> (under_limit limit 2 \<longrightarrow>
    env (length (calls w)) (page_request self (endpoint iqa_path) ps lu 0)
      = Returned (JsonBody d_a) \<longrightarrow>
    env (Suc (length (calls w))) (page_request self (endpoint iqa_path) ps lu 2)
      = Returned (JsonBody d_b) \<longrightarrow>
    body_rows d_a = Some [row_a, row_b] \<longrightarrow>
    truthy (body_member d_a ''HasNext'' (PyBool False)) \<longrightarrow>
    body_rows d_b = Some [row_c] \<longrightarrow>
    \<not> truthy (body_member d_b ''HasNext'' (PyBool False)) \<longrightarrow>
    flatten_record row_a = Inr rec_a \<longrightarrow> flatten_record row_b = Inr rec_b \<longrightarrow>
    flatten_record row_c = Inr rec_c \<longrightarrow>
    fetch_iqa env self iqa_path limit ps lu w =
      Some (Inr [rec_a, rec_b, rec_c],
            \<lparr>calls = calls w @ [page_request self (endpoint iqa_path) ps lu 0,
                                 page_request self (endpoint iqa_path) ps lu 2],
             printed = printed w @
               [Info (''Retrieving: 2 of '' @ py_str (body_member d_a ''TotalCount'' (PyInt 0))),
                Info (''Retrieving: 3 of '' @ py_str (body_member d_b ''TotalCount'' (PyInt 0)))]\<rparr>))
   \<and> (row_pairs row = Some vps \<longrightarrow>
      (\<exists>rec. flatten_record row = Inr rec \<and> fst ` set rec \<subseteq> range PyStr \<and>
         (\<forall>n. dict_lookup rec (PyStr n) = spec_mapping vps n)))"
proof (intro conjI impI)
  assume l: "under_limit limit 0"
    and r: "env (length (calls w)) (page_request self (endpoint iqa_path) ps lu 0)
      = Returned (JsonBody d)"
    and rows: "body_rows d = Some rows"
    and recs: "list_all2 (\<lambda>row rec. flatten_record row = Inr rec) rows recs"
    and h: "\<not> truthy (body_member d ''HasNext'' (PyBool False))"
  let ?page = "\<lparr>r_items = recs, r_has_next = body_member d ''HasNext'' (PyBool False),
         r_count = body_member d ''TotalCount'' (PyInt 0)\<rparr>"
  have len: "length recs = length rows" using recs by (simp add: list_all2_lengthD)
  from fetch_iqa_decoded_pages [where env = env and w = w and page = ?page
      and resp = "JsonBody d" and self = self and iqa_path = iqa_path and ps = ps and lu = lu
      and limit = limit, THEN conjunct1] l r decode_page_body [OF rows recs] h
  show "fetch_iqa env self iqa_path limit ps lu w =
      Some (Inr recs,
            \<lparr>calls = calls w @ [page_request self (endpoint iqa_path) ps lu 0],
             printed = printed w @
               [Info (''Retrieving: '' @ str_int (int (length rows)) @ '' of ''
                      @ py_str (body_member d ''TotalCount'' (PyInt 0)))]\<rparr>)"
    by (simp add: len)
next
  assume l: "under_limit limit 2"
    and ra: "env (length (calls w)) (page_request self (endpoint iqa_path) ps lu 0)
      = Returned (JsonBody d_a)"
    and rb: "env (Suc (length (calls w))) (page_request self (endpoint iqa_path) ps lu 2)
      = Returned (JsonBody d_b)"
    and rows_a: "body_rows d_a = Some [row_a, row_b]"
    and ha: "truthy (body_member d_a ''HasNext'' (PyBool False))"
    and rows_b: "body_rows d_b = Some [row_c]"
    and hb: "\<not> truthy (body_member d_b ''HasNext'' (PyBool False))"
    and fa: "flatten_record row_a = Inr rec_a" and fb: "flatten_record row_b = Inr rec_b"
    and fc: "flatten_record row_c = Inr rec_c"
  let ?page_a = "\<lparr>r_items = [rec_a, rec_b],
      r_has_next = body_member d_a ''HasNext'' (PyBool False),
      r_count = body_member d_a ''TotalCount'' (PyInt 0)\<rparr>"
  let ?page_b = "\<lparr>r_items = [rec_c],
      r_has_next = body_member d_b ''HasNext'' (PyBool False),
      r_count = body_member d_b ''TotalCount'' (PyInt 0)\<rparr>"
  have da: "decode_page (JsonBody d_a) = Inr ?page_a"
    by (rule decode_page_body [OF rows_a]) (simp add: fa fb)
  have db: "decode_page (JsonBody d_b) = Inr ?page_b"
    by (rule decode_page_body [OF rows_b]) (simp add: fc)
  from fetch_iqa_decoded_pages [where env = env and w = w and page_a = ?page_a
      and page_b = ?page_b and resp_a = "JsonBody d_a" and resp_b = "JsonBody d_b"
      and self = self and iqa_path = iqa_path and ps = ps and lu = lu and limit = limit,
      THEN conjunct2] l ra rb da db ha hb
  show "fetch_iqa env self iqa_path limit ps lu w =
      Some (Inr [rec_a, rec_b, rec_c],
            \<lparr>calls = calls w @ [page_request self (endpoint iqa_path) ps lu 0,
                                 page_request self (endpoint iqa_path) ps lu 2],
             printed = printed w @
               [Info (''Retrieving: 2 of '' @ py_str (body_member d_a ''TotalCount'' (PyInt 0))),
                Info (''Retrieving: 3 of '' @ py_str (body_member d_b ''TotalCount'' (PyInt 0)))]\<rparr>)"
    by simp
next
  assume "row_pairs row = Some vps"
  then show "\<exists>rec. flatten_record row = Inr rec \<and> fst ` set rec \<subseteq> range PyStr \<and>
         (\<forall>n. dict_lookup rec (PyStr n) = spec_mapping vps n)"
    by (rule row_pairs_flatten)
qed

theorem fetch_iqa_one_and_two_pages_witness:
  "fetch_iqa (\<lambda>n r. Returned (JsonBody (example_body False 2
        [example_row_of ''x'' 5, example_row_of ''y'' 6])))
      example_client ''$/Samples'' None 200 PyNone world0
    = Some (Inr [example_record_of ''x'' 5, example_record_of ''y'' 6],
        \<lparr>calls = [page_request example_client (endpoint ''$/Samples'') 200 PyNone 0],
         printed = [Info ''Retrieving: 2 of 2'']\<rparr>)
   \<and> fetch_iqa
      (\<lambda>n r. if n = 0
         then Returned (JsonBody (example_body True 3
                [example_row_of ''x'' 5, example_row_of ''y'' 6]))
         else Returned (JsonBody (example_body False 3 [example_row_of ''z'' 7])))
      example_client ''$/Samples'' None 200 PyNone world0
    = Some (Inr [example_record_of ''x'' 5, example_record_of ''y'' 6,
                 example_record_of ''z'' 7],
        \<lparr>calls = [page_request example_client (endpoint ''$/Samples'') 200 PyNone 0,
                  page_request example_client (endpoint ''$/Samples'') 200 PyNone 2],
         printed = [Info ''Retrieving: 2 of 3'', Info ''Retrieving: 3 of 3'']\<rparr>)
   \<and> (\<exists>rec. flatten_record (example_row_of ''x'' 5) = Inr rec
        \<and> dict_lookup rec (PyStr ''A'') = Some (PyStr ''x'')
        \<and> dict_lookup rec (PyStr ''B'') = Some (PyInt 5))"
proof -
  let ?one = "example_body False 2 [example_row_of ''x'' 5, example_row_of ''y'' 6]"
  let ?fst = "example_body True 3 [example_row_of ''x'' 5, example_row_of ''y'' 6]"
  let ?snd = "example_body False 3 [example_row_of ''z'' 7]"
  have one: "fetch_iqa (\<lambda>n r. Returned (JsonBody ?one))
      example_client ''$/Samples'' None 200 PyNone world0
    = Some (Inr [example_record_of ''x'' 5, example_record_of ''y'' 6],
        \<lparr>calls = [page_request example_client (endpoint ''$/Samples'') 200 PyNone 0],
         printed = [Info ''Retrieving: 2 of 2'']\<rparr>)"
    using fetch_iqa_one_and_two_pages [where env = "\<lambda>n r. Returned (JsonBody ?one)"
        and limit = None and w = world0 and self = example_client and iqa_path = "''$/Samples''"
        and ps = 200 and lu = PyNone and d = ?one
        and rows = "[example_row_of ''x'' 5, example_row_of ''y'' 6]"
        and recs = "[example_record_of ''x'' 5, example_record_of ''y'' 6]", THEN conjunct1]
    by (simp add: under_limit_def flatten_example_row_of world0_def)
  have two: "fetch_iqa (\<lambda>n r. if n = 0 then Returned (JsonBody ?fst)
         else Returned (JsonBody ?snd))
      example_client ''$/Samples'' None 200 PyNone world0
    = Some (Inr [example_record_of ''x'' 5, example_record_of ''y'' 6,
                 example_record_of ''z'' 7],
        \<lparr>calls = [page_request example_client (endpoint ''$/Samples'') 200 PyNone 0,
                  page_request example_client (endpoint ''$/Samples'') 200 PyNone 2],
         printed = [Info ''Retrieving: 2 of 3'', Info ''Retrieving: 3 of 3'']\<rparr>)"
    using fetch_iqa_one_and_two_pages [where env = "\<lambda>n r. if n = 0
          then Returned (JsonBody ?fst) else Returned (JsonBody ?snd)"
        and limit = None and w = world0 and self = example_client and iqa_path = "''$/Samples''"
        and ps = 200 and lu = PyNone and d_a = ?fst and d_b = ?snd
        and row_a = "example_row_of ''x'' 5" and row_b = "example_row_of ''y'' 6"
        and row_c = "example_row_of ''z'' 7" and rec_a = "example_record_of ''x'' 5"
        and rec_b = "example_record_of ''y'' 6" and rec_c = "example_record_of ''z'' 7",
        THEN conjunct2, THEN conjunct1]
    by (simp add: under_limit_def flatten_example_row_of world0_def)
  have pairs: "row_pairs (example_row_of ''x'' 5) =
      Some [PyDict [(''Name'', PyStr ''A''), (''Value'', PyStr ''x'')],
            PyDict [(''Name'', PyStr ''B''), (''Value'', PyDict [(''$value'', PyInt 5)])]]"
    by (simp add: row_pairs_def example_row_of_def pair_name_def)
  have three: "\<exists>rec. flatten_record (example_row_of ''x'' 5) = Inr rec
        \<and> dict_lookup rec (PyStr ''A'') = Some (PyStr ''x'')
        \<and> dict_lookup rec (PyStr ''B'') = Some (PyInt 5)"
    using fetch_iqa_one_and_two_pages [THEN conjunct2, THEN conjunct2, rule_format, OF pairs]
    by (auto simp: spec_mapping_def pair_name_def spec_value_def)
  show ?thesis using one two three by simp
qed

section \<open>The pagination loop as a whole\<close>

lemma loop_body_cases:
  obtains (failed) e where
      "env (length (calls w)) (page_request self path ps lu (offset st)) = RequestException e"
      "loop_body env self path ps lu st w =
        (Break, \<lparr>calls = calls w @ [page_request self path ps lu (offset st)],
                 printed = printed w @ [Error (''Request failed: '' @ e)]\<rparr>)"
  | (caught) resp e msg where
      "env (length (calls w)) (page_request self path ps lu (offset st)) = Returned resp"
      "decode_page resp = Inl e" "caught e"
      "loop_body env self path ps lu st w =
        (Break, \<lparr>calls = calls w @ [page_request self path ps lu (offset st)],
                 printed = printed w @ [Error msg]\<rparr>)"
  | (raised) resp e where
      "env (length (calls w)) (page_request self path ps lu (offset st)) = Returned resp"
      "decode_page resp = Inl e" "\<not> caught e"
      "loop_body env self path ps lu st w =
        (Raise e, \<lparr>calls = calls w @ [page_request self path ps lu (offset st)],
                   printed = printed w\<rparr>)"
  | (page) resp page where
      "env (length (calls w)) (page_request self path ps lu (offset st)) = Returned resp"
      "decode_page resp = Inr page"
      "loop_body env self path ps lu st w =
        (Continue \<lparr>items = items st @ r_items page, has_next = r_has_next page,
                   offset = offset st + int (length (r_items page))\<rparr>,
         \<lparr>calls = calls w @ [page_request self path ps lu (offset st)],
          printed = printed w @
            [progress (offset st + int (length (r_items page))) (r_count page)]\<rparr>)"
proof (cases "env (length (calls w)) (page_request self path ps lu (offset st))")
  case (RequestException e)
  from failed [OF this loop_body_failed [where env = env and w = w and st = st, OF this]]
  show ?thesis .
next
  case (Returned resp)
  show ?thesis
  proof (cases "decode_page resp")
    case (Inr pg)
    from page [OF Returned Inr loop_body_page [where env = env and w = w and st = st,
          OF Returned Inr]]
    show ?thesis .
  next
    case (Inl e)
    show ?thesis
    proof (cases "caught e")
      case True
      from loop_body_caught [where env = env and w = w and st = st, OF Returned Inl True]
      obtain msg where "loop_body env self path ps lu st w =
        (Break, \<lparr>calls = calls w @ [page_request self path ps lu (offset st)],
                 printed = printed w @ [Error msg]\<rparr>)" by blast
      from caught [OF Returned Inl True this] show ?thesis .
    next
      case False
      from raised [OF Returned Inl False
          loop_body_raise [where env = env and w = w and st = st, OF Returned Inl False]]
      show ?thesis .
    qed
  qed
qed

lemma loop_body_calls:
  "calls (snd (loop_body env self path ps lu st w)) =
     calls w @ [page_request self path ps lu (offset st)]"
  by (rule loop_body_cases [of env w self path ps lu st]) simp_all

lemma loop_body_ContinueD:
  assumes "loop_body env self path ps lu st w = (Continue st', w')"
  shows "\<exists>resp page.
      env (length (calls w)) (page_request self path ps lu (offset st)) = Returned resp \<and>
      decode_page resp = Inr page \<and>
      st' = \<lparr>items = items st @ r_items page, has_next = r_has_next page,
              offset = offset st + int (length (r_items page))\<rparr> \<and>
      calls w' = calls w @ [page_request self path ps lu (offset st)]"
  using assms
  by (rule_tac loop_body_cases [of env w self path ps lu st]) auto

lemma loop_body_same_outcome:
  assumes "env1 (length (calls w1)) (page_request self path ps lu (offset st))
    = env2 (length (calls w2)) (page_request self path ps lu (offset st))"
  shows "fst (loop_body env1 self path ps lu st w1) = fst (loop_body env2 self path ps lu st w2)"
proof (cases rule: loop_body_cases [of env1 w1 self path ps lu st])
  case (failed e)
  with assms loop_body_failed [where env = env2 and w = w2 and st = st and e = e]
  show ?thesis by simp
next
  case (caught resp e msg)
  from caught(1) assms
  have r: "env2 (length (calls w2)) (page_request self path ps lu (offset st)) = Returned resp"
    by simp
  from loop_body_caught [where env = env2 and w = w2 and st = st, OF r caught(2,3)] caught(4)
  show ?thesis by auto
next
  case (raised resp e)
  with assms loop_body_raise [where env = env2 and w = w2 and st = st and e = e and resp = resp]
  show ?thesis by simp
next
  case (page resp pg)
  with assms loop_body_page [where env = env2 and w = w2 and st = st and page = pg and resp = resp]
  show ?thesis by simp
qed

text \<open>Partial correctness of the loop: a property of every result that it returns.\<close>

lemma fetch_loop_returns_induct:
  assumes ret: "fetch_loop env self path limit ps lu st w = Some y"
    and stop: "\<And>st w. \<not> loop_cond limit st \<Longrightarrow> P st w (Inr (items st), w)"
    and brk: "\<And>st w w'. loop_cond limit st \<Longrightarrow>
        loop_body env self path ps lu st w = (Break, w') \<Longrightarrow> P st w (Inr (items st), w')"
    and rse: "\<And>st w e w'. loop_cond limit st \<Longrightarrow>
        loop_body env self path ps lu st w = (Raise e, w') \<Longrightarrow> P st w (Inl e, w')"
    and cont: "\<And>st w st' w' y. loop_cond limit st \<Longrightarrow>
        loop_body env self path ps lu st w = (Continue st', w') \<Longrightarrow> P st' w' y \<Longrightarrow> P st w y"
  shows "P st w y"
proof -
  have "env = env \<and> self = self \<and> path = path \<and> limit = limit \<and> ps = ps \<and> lu = lu
      \<longrightarrow> P st w y"
  proof (rule fetch_loop.raw_induct [where P = "\<lambda>e s p l q u st w y.
        e = env \<and> s = self \<and> p = path \<and> l = limit \<and> q = ps \<and> u = lu \<longrightarrow> P st w y", OF _ ret])
    fix f e s p l q u st w y
    assume ih: "\<And>s p l q u st w b y. f s p l q u st w b = Some y \<Longrightarrow>
        s = env \<and> p = self \<and> l = path \<and> q = limit \<and> u = ps \<and> st = lu \<longrightarrow> P w b y"
      and body: "(if loop_cond l st
        then case loop_body e s p q u st w of
               (Continue st', w') \<Rightarrow> f e s p l q u st' w'
             | (Break, w') \<Rightarrow> Some (Inr (items st), w')
             | (Raise ex, w') \<Rightarrow> Some (Inl ex, w')
        else Some (Inr (items st), w)) = Some y"
    show "e = env \<and> s = self \<and> p = path \<and> l = limit \<and> q = ps \<and> u = lu \<longrightarrow> P st w y"
    proof
      assume eq: "e = env \<and> s = self \<and> p = path \<and> l = limit \<and> q = ps \<and> u = lu"
      show "P st w y"
      proof (cases "loop_cond limit st")
        case False
        with body eq have "y = (Inr (items st), w)" by auto
        with stop [OF False] show ?thesis by simp
      next
        case True
        obtain r w' where lb: "loop_body env self path ps lu st w = (r, w')"
          by (cases "loop_body env self path ps lu st w")
        show ?thesis
        proof (cases r)
          case (Continue st')
          with body eq True lb have "f env self path limit ps lu st' w' = Some y" by simp
          from ih [OF this] have "P st' w' y" by simp
          from cont [OF True lb [unfolded Continue] this] show ?thesis .
        next
          case Break
          with body eq True lb have "y = (Inr (items st), w')" by auto
          with brk [OF True lb [unfolded Break]] show ?thesis by simp
        next
          case (Raise ex)
          with body eq True lb have "y = (Inl ex, w')" by auto
          with rse [OF True lb [unfolded Raise]] show ?thesis by simp
        qed
      qed
    qed
  qed
  then show ?thesis by simp
qed


section \<open>Failures during pagination\<close>

lemma call_failsD:
  assumes "call_fails env n req"
  shows "(\<exists>e. env n req = RequestException e) \<or>
    (\<exists>resp e. env n req = Returned resp \<and> decode_page resp = Inl e \<and> caught e)"
  using assms by (auto simp: call_fails_def split: outcome.splits sum.splits)

lemma loop_body_call_fails:
  assumes "call_fails env (length (calls w)) (page_request self path ps lu (offset st))"
  shows "\<exists>w'. loop_body env self path ps lu st w = (Break, w') \<and>
    calls w' = calls w @ [page_request self path ps lu (offset st)]"
proof -
  from call_failsD [OF assms] consider
    (a) e where "env (length (calls w)) (page_request self path ps lu (offset st))
        = RequestException e"
    | (b) resp e where "env (length (calls w)) (page_request self path ps lu (offset st))
        = Returned resp" "decode_page resp = Inl e" "caught e"
    by blast
  then show ?thesis
  proof cases
    case a
    from loop_body_failed [where env = env and w = w and st = st, OF a] show ?thesis by simp
  next
    case b
    from loop_body_caught [where env = env and w = w and st = st, OF b] show ?thesis by auto
  qed
qed

lemma fetch_loop_stops_at_failure:
  assumes "serves env (page_request self path ps lu) (length (calls w)) (offset st) pages"
    and "continues limit (offset st) pages"
    and "truthy (has_next st)"
    and "call_fails env (length (calls w) + length pages)
          (page_request self path ps lu (offset st + int (length (concat (map r_items pages)))))"
  shows "\<exists>w'. fetch_loop env self path limit ps lu st w =
      Some (Inr (items st @ concat (map r_items pages)), w') \<and>
    length (calls w') = length (calls w) + length pages + 1"
  using assms
proof (induction pages arbitrary: st w)
  case Nil
  then have c: "loop_cond limit st" by (simp add: loop_cond_iff)
  from Nil loop_body_call_fails [of env w self path ps lu st]
  obtain w' where "loop_body env self path ps lu st w = (Break, w')"
    and "calls w' = calls w @ [page_request self path ps lu (offset st)]" by auto
  with fetch_loop_break [OF c this(1)] show ?case by simp
next
  case (Cons p pages)
  from Cons.prems(1) obtain resp where
    r: "env (length (calls w)) (page_request self path ps lu (offset st)) = Returned resp"
    and d: "decode_page resp = Inr p"
    by (auto split: outcome.splits)
  let ?st = "\<lparr>items = items st @ r_items p, has_next = r_has_next p,
               offset = offset st + int (length (r_items p))\<rparr>"
  let ?w = "\<lparr>calls = calls w @ [page_request self path ps lu (offset st)],
      printed = printed w @ [progress (offset st + int (length (r_items p))) (r_count p)]\<rparr>"
  have c: "loop_cond limit st" using Cons.prems(2,3) by (simp add: loop_cond_iff)
  have unfold: "fetch_loop env self path limit ps lu st w = fetch_loop env self path limit ps lu ?st ?w"
    by (rule fetch_loop_continue [OF c loop_body_page [where env = env and w = w and st = st, OF r d]])
  have 1: "serves env (page_request self path ps lu) (length (calls ?w)) (offset ?st) pages"
    using Cons.prems(1) by simp
  have 2: "continues limit (offset ?st) pages" using Cons.prems(2) by simp
  have 3: "truthy (has_next ?st)" using Cons.prems(2) by simp
  have 4: "call_fails env (length (calls ?w) + length pages)
          (page_request self path ps lu (offset ?st + int (length (concat (map r_items pages)))))"
    using Cons.prems(4) by (simp add: add.assoc)
  from Cons.IH [OF 1 2 3 4] show ?case
    unfolding unfold by auto
qed

text \<open>
  What the handler does catch. When the first pages decode (each with a true \<^verbatim>\<open>HasNext\<close>
  and the limit admitting the next request) and the call after them fails at the HTTP
  level, or its body is not JSON or lacks a key that is read by subscript
  (\<^verbatim>\<open>json.JSONDecodeError\<close> and \<^verbatim>\<open>KeyError\<close>), \<^verbatim>\<open>fetch_iqa\<close> makes no further call and
  returns, without an exception, the records of those pages in order.
\<close>

lemma fetch_iqa_stops_at_failure:
  assumes "serves env (page_request self (endpoint iqa_path) ps lu) (length (calls w)) 0 pages"
    and "continues limit 0 pages"
    and "call_fails env (length (calls w) + length pages)
          (page_request self (endpoint iqa_path) ps lu
             (int (length (concat (map r_items pages)))))"
  shows "\<exists>w'. fetch_iqa env self iqa_path limit ps lu w =
      Some (Inr (concat (map r_items pages)), w') \<and>
    length (calls w') = length (calls w) + length pages + 1"
  using fetch_loop_stops_at_failure [where env = env and w = w and pages = pages
      and st = "\<lparr>items = [], has_next = PyBool True, offset = 0\<rparr>" and self = self
      and path = "endpoint iqa_path" and ps = ps and lu = lu and limit = limit] assms
  by (simp add: fetch_iqa_def endpoint_def)

lemma fetch_iqa_stops_at_failure_example:
  "\<exists>w'. fetch_iqa
      (\<lambda>n r. if n = 0 then Returned (JsonBody (example_page True 5 2))
              else if n = 1 then Returned (BadBody ''Expecting value: line 1 column 1 (char 0)'')
              else Returned (JsonBody (example_page False 5 2)))
      example_client ''$/Samples'' None 200 PyNone world0 =
      Some (Inr [example_record, example_record], w') \<and> length (calls w') = 2"
proof -
  let ?env = "\<lambda>(n::nat) (r::request). if n = 0 then Returned (JsonBody (example_page True 5 2))
              else if n = 1 then Returned (BadBody ''Expecting value: line 1 column 1 (char 0)'')
              else Returned (JsonBody (example_page False 5 2))"
  let ?pages = "[\<lparr>r_items = replicate 2 example_record, r_has_next = PyBool True,
      r_count = PyInt 5\<rparr>]"
  have 1: "serves ?env (page_request example_client (endpoint ''$/Samples'') 200 PyNone)
      (length (calls world0)) 0 ?pages"
    by (simp add: decode_example_page world0_def)
  have 2: "continues None 0 ?pages" by (simp add: under_limit_def)
  have 3: "call_fails ?env (length (calls world0) + length ?pages)
          (page_request example_client (endpoint ''$/Samples'') 200 PyNone
             (int (length (concat (map r_items ?pages)))))"
    by (simp add: call_fails_def world0_def decode_page_def)
  from fetch_iqa_stops_at_failure [OF 1 2 3]
  show ?thesis by (simp add: world0_def numeral_2_eq_2)
qed

text \<open>
  Claim C2, evaluated on the code. The handler of \<^verbatim>\<open>process_response\<close> is there to turn a
  body that does not decode into the end of the pagination, and it does so for a body that
  is not JSON and for a row without \<^verbatim>\<open>Properties\<close> (\<^verbatim>\<open>KeyError\<close>): the result is the
  records so far. It misses the \<^verbatim>\<open>AttributeError\<close> and \<^verbatim>\<open>TypeError\<close> that the same block
  raises on JSON of another shape: a top-level list, a null \<^verbatim>\<open>Items\<close>, a row whose
  \<^verbatim>\<open>Properties\<close> is null. These leave \<^verbatim>\<open>fetch_iqa\<close>, and the records of the pages
  before are lost with them.
\<close>

theorem fetch_iqa_exception_escapes:
  "map_option fst (fetch_iqa (\<lambda>n r. Returned (JsonBody (PyList []))) example_client
      ''$/Samples'' None 200 PyNone world0) = Some (Inl AttributeError)
   \<and> map_option fst (fetch_iqa (\<lambda>n r. Returned (JsonBody (PyDict [(''Items'', PyNone)])))
      example_client ''$/Samples'' None 200 PyNone world0) = Some (Inl AttributeError)
   \<and> map_option fst (fetch_iqa
      (\<lambda>n r. Returned (JsonBody (example_body False 1 [PyDict [(''Properties'', PyNone)]])))
      example_client ''$/Samples'' None 200 PyNone world0) = Some (Inl TypeError)
   \<and> map_option fst (fetch_iqa
      (\<lambda>n r. if n = 0
         then Returned (JsonBody (example_body True 3
                [example_row_of ''x'' 5, example_row_of ''y'' 6]))
         else Returned (JsonBody (PyList [])))
      example_client ''$/Samples'' None 200 PyNone world0) = Some (Inl AttributeError)
   \<and> map_option fst (fetch_iqa
      (\<lambda>n r. if n = 0
         then Returned (JsonBody (example_body True 3
                [example_row_of ''x'' 5, example_row_of ''y'' 6]))
         else Returned (JsonBody (example_body False 3 [PyDict []])))
      example_client ''$/Samples'' None 200 PyNone world0)
     = Some (Inr [example_record_of ''x'' 5, example_record_of ''y'' 6])
   \<and> map_option fst (fetch_iqa
      (\<lambda>n r. if n = 0
         then Returned (JsonBody (example_body True 3
                [example_row_of ''x'' 5, example_row_of ''y'' 6]))
         else Returned (BadBody ''Expecting value: line 1 column 1 (char 0)''))
      example_client ''$/Samples'' None 200 PyNone world0)
     = Some (Inr [example_record_of ''x'' 5, example_record_of ''y'' 6])"
  by (intro conjI; code_simp)

section \<open>The limit\<close>

lemma fetch_loop_length_bound:
  assumes ret: "fetch_loop env self path (Some l) ps lu st w = Some (Inr its, w')"
    and pages: "\<forall>n r resp page. env n r = Returned resp \<longrightarrow> decode_page resp = Inr page \<longrightarrow>
        int (length (r_items page)) \<le> ps"
    and inv: "offset st = int (length (items st))" "offset st < l + ps"
  shows "int (length its) < l + ps"
proof -
  define y where "y = (Inr its :: exn + pydict list, w')"
  have ret': "fetch_loop env self path (Some l) ps lu st w = Some y"
    using ret by (simp add: y_def)
  have "offset st = int (length (items st)) \<longrightarrow> offset st < l + ps \<longrightarrow>
      (\<forall>xs v. y = (Inr xs, v) \<longrightarrow> int (length xs) < l + ps)"
  proof (induction rule: fetch_loop_returns_induct [OF ret'])
    case (1 st w)
    then show ?case by simp
  next
    case (2 st w w')
    then show ?case by simp
  next
    case (3 st w e w')
    then show ?case by simp
  next
    case (4 st w st' w' y)
    from loop_body_ContinueD [OF 4(2)] obtain resp page where
      r: "env (length (calls w)) (page_request self path ps lu (offset st)) = Returned resp"
      and d: "decode_page resp = Inr page"
      and st': "st' = \<lparr>items = items st @ r_items page, has_next = r_has_next page,
              offset = offset st + int (length (r_items page))\<rparr>"
      by blast
    from pages r d have le: "int (length (r_items page)) \<le> ps" by blast
    from 4(1) have lt: "offset st < l" by (simp add: loop_cond_def)
    show ?case
    proof (intro impI)
      assume a: "offset st = int (length (items st))" and "offset st < l + ps"
      have "offset st' = int (length (items st'))" using a by (simp add: st')
      moreover have "offset st' < l + ps" using le lt by (simp add: st')
      ultimately show "\<forall>xs v. y = (Inr xs, v) \<longrightarrow> int (length xs) < l + ps"
        using 4(3) by blast
    qed
  qed
  with inv show ?thesis by (simp add: y_def)
qed

text \<open>
  Claim C6. With a limit \<open>l\<close>, a request is issued only while the offset is below \<open>l\<close>:
  at an offset that has reached the limit the loop returns with no call, and with a limit
  of 0 or less \<^verbatim>\<open>fetch_iqa\<close> makes no call and returns the empty list. If every page that
  decodes has at most \<open>page_size\<close> records, the list that \<^verbatim>\<open>fetch_iqa\<close> returns is shorter
  than \<open>l + page_size\<close>; this holds for every limit of at least 0 with a page size of at
  least 1, and needs no more than that \<open>l + page_size\<close> is positive.
\<close>

theorem fetch_iqa_limit_overshoot:
  "((\<forall>n r resp page. env n r = Returned resp \<longrightarrow> decode_page resp = Inr page \<longrightarrow>
        int (length (r_items page)) \<le> ps) \<longrightarrow>
    0 < l + ps \<longrightarrow>
    fetch_iqa env self iqa_path (Some l) ps lu w = Some (Inr its, w') \<longrightarrow>
    int (length its) < l + ps)
   \<and> (\<not> offset st < l \<longrightarrow>
        fetch_loop env_x self path (Some l) ps_x lu st w = Some (Inr (items st), w))
   \<and> (l \<le> 0 \<longrightarrow> fetch_iqa env_x self iqa_path (Some l) ps_x lu w = Some (Inr [], w))"
proof (intro conjI impI)
  assume pages: "\<forall>n r resp page. env n r = Returned resp \<longrightarrow> decode_page resp = Inr page \<longrightarrow>
        int (length (r_items page)) \<le> ps"
    and pos: "0 < l + ps"
    and "fetch_iqa env self iqa_path (Some l) ps lu w = Some (Inr its, w')"
  then have "fetch_loop env self (endpoint iqa_path) (Some l) ps lu
      \<lparr>items = [], has_next = PyBool True, offset = 0\<rparr> w = Some (Inr its, w')"
    by (simp add: fetch_iqa_def endpoint_def)
  from fetch_loop_length_bound [OF this pages] pos
  show "int (length its) < l + ps" by simp
next
  assume "\<not> offset st < l"
  then have "\<not> loop_cond (Some l) st" by (simp add: loop_cond_def)
  then show "fetch_loop env_x self path (Some l) ps_x lu st w = Some (Inr (items st), w)"
    by (rule fetch_loop_stop)
next
  assume "l \<le> 0"
  then have "\<not> loop_cond (Some l) \<lparr>items = [], has_next = PyBool True, offset = 0\<rparr>"
    by (simp add: loop_cond_def)
  from fetch_loop_stop [OF this]
  show "fetch_iqa env_x self iqa_path (Some l) ps_x lu w = Some (Inr [], w)"
    by (simp add: fetch_iqa_def)
qed

lemma fetch_example_overshoot:
  "fetch_iqa (\<lambda>n r. Returned (JsonBody (example_page True 4 2))) example_client
      ''$/Samples'' (Some 3) 2 PyNone world0
   = Some (Inr [example_record, example_record, example_record, example_record],
       \<lparr>calls = [page_request example_client (endpoint ''$/Samples'') 2 PyNone 0,
                 page_request example_client (endpoint ''$/Samples'') 2 PyNone 2],
        printed = [Info ''Retrieving: 2 of 4'', Info ''Retrieving: 4 of 4'']\<rparr>)"
proof -
  let ?env = "\<lambda>(n::nat) (r::request). Returned (JsonBody (example_page True 4 2))"
  let ?pg = "\<lparr>r_items = replicate 2 example_record, r_has_next = PyBool True,
      r_count = PyInt 4\<rparr>"
  let ?st0 = "\<lparr>items = [], has_next = PyBool True, offset = 0\<rparr>"
  let ?st1 = "\<lparr>items = items ?st0 @ r_items ?pg, has_next = r_has_next ?pg,
      offset = offset ?st0 + int (length (r_items ?pg))\<rparr>"
  let ?w1 = "\<lparr>calls = calls world0 @
        [page_request example_client (endpoint ''$/Samples'') 2 PyNone (offset ?st0)],
      printed = printed world0 @
        [progress (offset ?st0 + int (length (r_items ?pg))) (r_count ?pg)]\<rparr>"
  let ?st2 = "\<lparr>items = items ?st1 @ r_items ?pg, has_next = r_has_next ?pg,
      offset = offset ?st1 + int (length (r_items ?pg))\<rparr>"
  have c0: "loop_cond (Some 3) ?st0" by (simp add: loop_cond_def)
  have c1: "loop_cond (Some 3) ?st1" by (simp add: loop_cond_def)
  have c2: "\<not> loop_cond (Some 3) ?st2" by (simp add: loop_cond_def)
  have r0: "?env (length (calls world0))
      (page_request example_client (endpoint ''$/Samples'') 2 PyNone (offset ?st0))
      = Returned (JsonBody (example_page True 4 2))" by simp
  have r1: "?env (length (calls ?w1))
      (page_request example_client (endpoint ''$/Samples'') 2 PyNone (offset ?st1))
      = Returned (JsonBody (example_page True 4 2))" by simp
  have d: "decode_page (JsonBody (example_page True 4 2)) = Inr ?pg"
    by (rule decode_example_page)
  show ?thesis
    unfolding fetch_iqa_def endpoint_def [symmetric]
      fetch_loop_continue [OF c0 loop_body_page [where w = world0 and st = ?st0, OF r0 d]]
      fetch_loop_continue [OF c1 loop_body_page [where w = ?w1 and st = ?st1, OF r1 d]]
      fetch_loop_stop [OF c2]
    by (simp add: progress_def world0_def numeral_2_eq_2)
qed

theorem fetch_iqa_limit_overshoot_witness:
  "fetch_iqa (\<lambda>n r. Returned (JsonBody (example_page True 4 2))) example_client
      ''$/Samples'' (Some 3) 2 PyNone world0
   = Some (Inr [example_record, example_record, example_record, example_record],
       \<lparr>calls = [page_request example_client (endpoint ''$/Samples'') 2 PyNone 0,
                 page_request example_client (endpoint ''$/Samples'') 2 PyNone 2],
        printed = [Info ''Retrieving: 2 of 4'', Info ''Retrieving: 4 of 4'']\<rparr>)
   \<and> (3::int) < int (length [example_record, example_record, example_record, example_record])
   \<and> int (length [example_record, example_record, example_record, example_record]) < 3 + 2
   \<and> fetch_iqa (\<lambda>n r. Returned (JsonBody (example_page True 4 2))) example_client
      ''$/Samples'' (Some 0) 2 PyNone world0 = Some (Inr [], world0)"
proof -
  have pages: "\<forall>n r resp page.
      (\<lambda>(n::nat) (r::request). Returned (JsonBody (example_page True 4 2))) n r = Returned resp
      \<longrightarrow> decode_page resp = Inr page \<longrightarrow> int (length (r_items page)) \<le> 2"
    by (auto simp: decode_example_page)
  have pos: "(0::int) < 3 + 2" by simp
  have zero: "(0::int) \<le> 0" by simp
  from fetch_iqa_limit_overshoot [THEN conjunct1, THEN mp, OF pages, THEN mp, OF pos,
      THEN mp, OF fetch_example_overshoot]
    fetch_iqa_limit_overshoot [where env_x = "\<lambda>n r. Returned (JsonBody (example_page True 4 2))"
      and self = example_client and iqa_path = "''$/Samples''" and ps_x = 2 and lu = PyNone
      and w = world0 and l = 0, THEN conjunct2, THEN conjunct2, THEN mp, OF zero]
  show ?thesis
    using fetch_example_overshoot by simp
qed

text \<open>The condition that \<open>l + page_size\<close> is positive cannot be dropped: with limit 0 and
  page size 0 no call is made, and the length 0 of the result is not below 0.\<close>

lemma fetch_iqa_limit_zero_page_zero:
  "fetch_iqa (\<lambda>n r. RequestException ''unreachable'') example_client ''$/Samples'' (Some 0) 0
      PyNone world0 = Some (Inr [], world0)
   \<and> \<not> int (length ([] :: pydict list)) < 0 + 0"
  by (simp add: fetch_iqa_def fetch_loop_stop loop_cond_def)

section \<open>Termination\<close>







section \<open>Determinism\<close>

text \<open>A run against one transport can be replayed against any other that gives the same
  responses in the same order, whatever was called or printed before.\<close>

lemma fetch_loop_replay:
  assumes ret: "fetch_loop env1 self path limit ps lu st w1 = Some y"
    and e1: "\<forall>k r. env1 (length (calls w1) + k) r = rs k"
    and e2: "\<forall>k r. env2 (length (calls w2) + k) r = rs k"
  shows "\<exists>w2'. fetch_loop env2 self path limit ps lu st w2 = Some (fst y, w2')"
proof -
  have "\<forall>rs w2. (\<forall>k r. env1 (length (calls w1) + k) r = rs k) \<longrightarrow>
      (\<forall>k r. env2 (length (calls w2) + k) r = rs k) \<longrightarrow>
      (\<exists>w2'. fetch_loop env2 self path limit ps lu st w2 = Some (fst y, w2'))"
  proof (induction rule: fetch_loop_returns_induct [OF ret])
    case (1 st w)
    then show ?case by (simp add: fetch_loop_stop)
  next
    case (2 st w w')
    show ?case
    proof (intro allI impI)
      fix rs :: "nat \<Rightarrow> outcome" and w2 :: world
      assume a: "\<forall>k r. env1 (length (calls w) + k) r = rs k"
        and b: "\<forall>k r. env2 (length (calls w2) + k) r = rs k"
      from a [rule_format, of 0] b [rule_format, of 0]
      have "env1 (length (calls w)) (page_request self path ps lu (offset st))
        = env2 (length (calls w2)) (page_request self path ps lu (offset st))" by simp
      from loop_body_same_outcome [of env1 w self path ps lu st env2 w2, OF this] 2(2)
      have "fst (loop_body env2 self path ps lu st w2) = Break" by simp
      then obtain v where "loop_body env2 self path ps lu st w2 = (Break, v)"
        by (cases "loop_body env2 self path ps lu st w2") simp
      from fetch_loop_break [OF 2(1) this]
      show "\<exists>w2'. fetch_loop env2 self path limit ps lu st w2
          = Some (fst (Inr (items st) :: exn + pydict list, w'), w2')" by simp
    qed
  next
    case (3 st w e w')
    show ?case
    proof (intro allI impI)
      fix rs :: "nat \<Rightarrow> outcome" and w2 :: world
      assume a: "\<forall>k r. env1 (length (calls w) + k) r = rs k"
        and b: "\<forall>k r. env2 (length (calls w2) + k) r = rs k"
      from a [rule_format, of 0] b [rule_format, of 0]
      have "env1 (length (calls w)) (page_request self path ps lu (offset st))
        = env2 (length (calls w2)) (page_request self path ps lu (offset st))" by simp
      from loop_body_same_outcome [of env1 w self path ps lu st env2 w2, OF this] 3(2)
      have "fst (loop_body env2 self path ps lu st w2) = Raise e" by simp
      then obtain v where "loop_body env2 self path ps lu st w2 = (Raise e, v)"
        by (cases "loop_body env2 self path ps lu st w2") simp
      from fetch_loop_raise [OF 3(1) this]
      show "\<exists>w2'. fetch_loop env2 self path limit ps lu st w2
          = Some (fst (Inl e :: exn + pydict list, w'), w2')" by simp
    qed
  next
    case (4 st w st' w' y)
    show ?case
    proof (intro allI impI)
      fix rs :: "nat \<Rightarrow> outcome" and w2 :: world
      assume a: "\<forall>k r. env1 (length (calls w) + k) r = rs k"
        and b: "\<forall>k r. env2 (length (calls w2) + k) r = rs k"
      from a [rule_format, of 0] b [rule_format, of 0]
      have "env1 (length (calls w)) (page_request self path ps lu (offset st))
        = env2 (length (calls w2)) (page_request self path ps lu (offset st))" by simp
      from loop_body_same_outcome [of env1 w self path ps lu st env2 w2, OF this] 4(2)
      have "fst (loop_body env2 self path ps lu st w2) = Continue st'" by simp
      then obtain v where lb: "loop_body env2 self path ps lu st w2 = (Continue st', v)"
        by (cases "loop_body env2 self path ps lu st w2") simp
      have len1: "length (calls w') = Suc (length (calls w))"
        using loop_body_calls [of env1 self path ps lu st w] 4(2) by simp
      have len2: "length (calls v) = Suc (length (calls w2))"
        using loop_body_calls [of env2 self path ps lu st w2] lb by simp
      have a': "\<forall>k r. env1 (length (calls w') + k) r = (\<lambda>k. rs (Suc k)) k"
        using a [rule_format, of "Suc _"] by (simp add: len1)
      have b': "\<forall>k r. env2 (length (calls v) + k) r = (\<lambda>k. rs (Suc k)) k"
        using b [rule_format, of "Suc _"] by (simp add: len2)
      from 4(3) [THEN spec, THEN spec, THEN mp, THEN mp, OF a' b']
      show "\<exists>w2'. fetch_loop env2 self path limit ps lu st w2 = Some (fst y, w2')"
        unfolding fetch_loop_continue [OF 4(1) lb] .
    qed
  qed
  with e1 e2 show ?thesis by blast
qed

text \<open>
  Claim C9. Two invocations of \<^verbatim>\<open>fetch_iqa\<close> with the same arguments that meet the same
  sequence of responses have the same outcome: the same record list, the same exception,
  or no return in both. What was called or printed before either invocation does not
  matter.
\<close>

theorem fetch_iqa_deterministic:
  assumes "\<forall>k r. env_a (length (calls w_a) + k) r = rs k"
    and "\<forall>k r. env_b (length (calls w_b) + k) r = rs k"
  shows "map_option fst (fetch_iqa env_a self iqa_path limit ps lu w_a) =
    map_option fst (fetch_iqa env_b self iqa_path limit ps lu w_b)"
proof (cases "fetch_iqa env_a self iqa_path limit ps lu w_a")
  case (Some y)
  from fetch_loop_replay [OF Some [unfolded fetch_iqa_def] assms]
  have "\<exists>v. fetch_iqa env_b self iqa_path limit ps lu w_b = Some (fst y, v)"
    by (simp add: fetch_iqa_def)
  then show ?thesis by (auto simp: Some)
next
  case None
  show ?thesis
  proof (cases "fetch_iqa env_b self iqa_path limit ps lu w_b")
    case (Some y)
    from fetch_loop_replay [OF Some [unfolded fetch_iqa_def] assms(2,1)]
    have "\<exists>v. fetch_iqa env_a self iqa_path limit ps lu w_a = Some (fst y, v)"
      by (simp add: fetch_iqa_def)
    with None show ?thesis by simp
  next
    case n: None
    with None show ?thesis by simp
  qed
qed

theorem fetch_iqa_deterministic_witness:
  "map_option fst
     (fetch_iqa (\<lambda>n r. Returned (JsonBody (example_page (n = 0) 3 (2 - n)))) example_client
        ''$/Samples'' None 200 PyNone world0) =
   map_option fst
     (fetch_iqa (\<lambda>n r. Returned (JsonBody (example_page (n = 1) 3 (3 - n)))) example_client
        ''$/Samples'' None 200 PyNone
        \<lparr>calls = [page_request example_client (endpoint ''$/Earlier'') 200 PyNone 0],
         printed = [Error ''Request failed: timeout'']\<rparr>)"
proof -
  have 1: "\<forall>k r. (\<lambda>(n::nat) (r::request). Returned (JsonBody (example_page (n = 0) 3 (2 - n))))
      (length (calls world0) + k) r = Returned (JsonBody (example_page (k = 0) 3 (2 - k)))"
    by (simp add: world0_def)
  have 2: "\<forall>k r. (\<lambda>(n::nat) (r::request). Returned (JsonBody (example_page (n = 1) 3 (3 - n))))
      (length (calls \<lparr>calls = [page_request example_client (endpoint ''$/Earlier'') 200 PyNone 0],
         printed = [Error ''Request failed: timeout'']\<rparr>) + k) r
      = Returned (JsonBody (example_page (k = 0) 3 (2 - k)))"
    by simp
  from fetch_iqa_deterministic [OF 1 2] show ?thesis .
qed

end
